theory Spec2Isabelle
  imports Complex_Main "HOL-Library.Code_Target_Nat"
begin

section \<open>Values of the host language\<close>

text \<open>
  A string is its sequence of UTF-16 code units: that is what \<open>length\<close>, indexing,
  \<open>split('')\<close> and the pattern engine see. \<open>utf16\<close> writes an ASCII literal.
\<close>

type_synonym jsstring = "nat list"

definition utf16 :: "string \<Rightarrow> jsstring" where
  "utf16 s = map of_char s"

text \<open>
  Numbers. The finite doubles are represented by the rationals they denote (rounding is
  not modelled, and the two zeros are one); the infinities and NaN are kept, because the
  source divides by a spread that can be zero and defaults its bounds to
  \<open>-Infinity\<close> and \<open>Infinity\<close>.
\<close>

datatype number = NegInfinity | Num rat | PosInfinity | NaN

fun num_lt :: "number \<Rightarrow> number \<Rightarrow> bool" where
  "num_lt NaN _ = False"
| "num_lt _ NaN = False"
| "num_lt (Num x) (Num y) = (x < y)"
| "num_lt _ NegInfinity = False"
| "num_lt NegInfinity _ = True"
| "num_lt PosInfinity _ = False"
| "num_lt _ PosInfinity = True"

definition num_gt :: "number \<Rightarrow> number \<Rightarrow> bool" where
  "num_gt a b = num_lt b a"

definition num_ge :: "number \<Rightarrow> number \<Rightarrow> bool" where
  "num_ge a b = (a \<noteq> NaN \<and> b \<noteq> NaN \<and> \<not> num_lt a b)"

definition num_min :: "number \<Rightarrow> number \<Rightarrow> number" where
  \<comment> \<open>\<open>Math.min\<close> of two arguments\<close>
  "num_min a b = (if a = NaN \<or> b = NaN then NaN else if num_lt b a then b else a)"

fun sign_of :: "number \<Rightarrow> rat" where
  "sign_of (Num x) = sgn x"
| "sign_of PosInfinity = 1"
| "sign_of NegInfinity = - 1"
| "sign_of NaN = 0"

definition signed_infinity :: "rat \<Rightarrow> number" where
  "signed_infinity s = (if 0 < s then PosInfinity else if s < 0 then NegInfinity else NaN)"

fun num_neg :: "number \<Rightarrow> number" where
  "num_neg (Num x) = Num (- x)"
| "num_neg PosInfinity = NegInfinity"
| "num_neg NegInfinity = PosInfinity"
| "num_neg NaN = NaN"

fun num_sub :: "number \<Rightarrow> number \<Rightarrow> number" where
  "num_sub NaN _ = NaN"
| "num_sub _ NaN = NaN"
| "num_sub (Num x) (Num y) = Num (x - y)"
| "num_sub (Num x) b = num_neg b"
| "num_sub a (Num y) = a"
| "num_sub a b = (if a = b then NaN else a)"

fun num_mul :: "number \<Rightarrow> number \<Rightarrow> number" where
  "num_mul NaN _ = NaN"
| "num_mul _ NaN = NaN"
| "num_mul (Num x) (Num y) = Num (x * y)"
| "num_mul a b = signed_infinity (sign_of a * sign_of b)"

fun num_div :: "number \<Rightarrow> number \<Rightarrow> number" where
  "num_div NaN _ = NaN"
| "num_div _ NaN = NaN"
| "num_div (Num x) (Num y) = (if y = 0 then signed_infinity (sgn x) else Num (x / y))"
| "num_div (Num x) b = Num 0"
| "num_div a (Num y) = signed_infinity (sign_of a * (if y < 0 then - 1 else 1))"
| "num_div a b = NaN"

fun is_finite :: "number \<Rightarrow> bool" where
  "is_finite (Num x) = True"
| "is_finite _ = False"

section \<open>Rankings and match results\<close>

definition CASE_SENSITIVE_EQUAL :: number where "CASE_SENSITIVE_EQUAL = Num 7"
definition EQUAL :: number where "EQUAL = Num 6"
definition STARTS_WITH :: number where "STARTS_WITH = Num 5"
definition WORD_STARTS_WITH :: number where "WORD_STARTS_WITH = Num 4"
definition CONTAINS :: number where "CONTAINS = Num 3"
definition ACRONYM :: number where "ACRONYM = Num 2"
definition MATCHES :: number where "MATCHES = Num 1"
definition NO_MATCH :: number where "NO_MATCH = Num 0"

text \<open>
  \<open>MatchRanking\<close> is the tagged union of the source, one constructor for each rank;
  the payload fields keep the source's order (\<open>index\<close>, \<open>length\<close>, \<open>closeness\<close>).
\<close>

datatype MatchRanking =
    NoMatch
  | Matches int int number
  | Acronym "int list"
  | Contains int int
  | WordStartsWith int int
  | StartsWith int
  | Equal
  | CaseSensitiveEqual

fun rank :: "MatchRanking \<Rightarrow> number" where
  "rank NoMatch = NO_MATCH"
| "rank (Matches i l c) = MATCHES"
| "rank (Acronym is) = ACRONYM"
| "rank (Contains i l) = CONTAINS"
| "rank (WordStartsWith i l) = WORD_STARTS_WITH"
| "rank (StartsWith l) = STARTS_WITH"
| "rank Equal = EQUAL"
| "rank CaseSensitiveEqual = CASE_SENSITIVE_EQUAL"

fun closeness :: "MatchRanking \<Rightarrow> number" where
  \<comment> \<open>a result without the property reads \<open>undefined\<close>, which is NaN in arithmetic and
      comparisons\<close>
  "closeness (Matches i l c) = c"
| "closeness _ = NaN"

section \<open>getClosenessRanking\<close>

text \<open>
  \<open>findMatchingCharacter\<close> is a closure over the counter
  \<open>matchingInOrderCharCount\<close>; the counter is passed in and returned.
  \<open>matchChar\<close> is \<open>None\<close> for \<open>undefined\<close> (the first character of an
  empty string).
\<close>

function findMatchingCharacter :: "nat option \<Rightarrow> jsstring \<Rightarrow> nat \<Rightarrow> nat \<Rightarrow> int \<times> nat" where
  "findMatchingCharacter matchChar string j count =
     (if j < length string
      then (if Some (string ! j) = matchChar then (int j + 1, count + 1)
            else findMatchingCharacter matchChar string (j + 1) count)
      else (- 1, count))"
  by pat_completeness auto
termination
  by (relation "measure (\<lambda>(matchChar, string, j, count). length string - j)") auto

declare findMatchingCharacter.simps [simp del]

definition charAt :: "jsstring \<Rightarrow> nat \<Rightarrow> nat option" where
  \<comment> \<open>\<open>s[i]\<close>: \<open>undefined\<close> out of range\<close>
  "charAt s i = (if i < length s then Some (s ! i) else None)"

text \<open>The loop over the characters after the first; \<open>None\<close> is its early return.\<close>

function matchRest :: "jsstring \<Rightarrow> jsstring \<Rightarrow> nat \<Rightarrow> int \<Rightarrow> nat \<Rightarrow> (int \<times> nat) option" where
  "matchRest testString stringToRank i charNumber count =
     (if i < length stringToRank
      then (case findMatchingCharacter (charAt stringToRank i) testString (nat charNumber) count of
              (charNumber', count') \<Rightarrow>
                if charNumber' > - 1
                then matchRest testString stringToRank (i + 1) charNumber' count'
                else None)
      else Some (charNumber, count))"
  by pat_completeness auto
termination
  by (relation "measure (\<lambda>(testString, stringToRank, i, charNumber, count). length stringToRank - i)") auto

declare matchRest.simps [simp del]

definition getClosenessRanking :: "jsstring \<Rightarrow> jsstring \<Rightarrow> MatchRanking" where
  "getClosenessRanking testString stringToRank =
     (case findMatchingCharacter (charAt stringToRank 0) testString 0 0 of
        (firstIndex, count) \<Rightarrow>
          if firstIndex < 0 then NoMatch
          else (case matchRest testString stringToRank 1 firstIndex count of
                  None \<Rightarrow> NoMatch
                | Some (charNumber, matchingInOrderCharCount) \<Rightarrow>
                    let len = charNumber - firstIndex
                    in Matches len (int matchingInOrderCharCount)
                         (num_mul
                            (num_div (Num (of_nat matchingInOrderCharCount))
                                     (Num (of_nat (length stringToRank))))
                            (num_div (Num 1) (Num (of_int len))))))"

section \<open>The pattern engine\<close>

text \<open>
  The source builds every pattern with \<open>new RegExp\<close> and runs it with
  \<open>test\<close>, \<open>exec\<close> and \<open>String.prototype.replace\<close>. The engine belongs to
  the host language; this section embeds the part of it that the patterns of the source
  reach: literal code units, \<open>.\<close>, \<open>\s\<close>, escaped syntax characters, \<open>^\<close> and
  \<open>$\<close> (no multiline flag), alternation, capturing and non-capturing groups, the
  greedy quantifiers \<open>*\<close> and \<open>?\<close>, and the flags \<open>i\<close> and \<open>g\<close>. A
  pattern that the engine rejects is \<open>SyntaxError\<close>. A pattern or a comparison outside
  this part is \<open>NotModelled\<close>: there the embedding makes no statement.
\<close>

datatype error = SyntaxError | TypeError | NotModelled

fun and_then :: "error + 'a \<Rightarrow> ('a \<Rightarrow> error + 'b) \<Rightarrow> error + 'b" where
  "and_then (Inl e) f = Inl e"
| "and_then (Inr x) f = f x"

datatype regex =
    Empty
  | Chr nat
  | Dot
  | Space
  | Bol
  | Eol
  | Seq regex regex
  | Alt regex regex
  | Star regex
  | Opt regex
  | Capture nat regex
  | NonCapture regex

datatype token =
    TChr nat | TDot | TSpace | TBol | TEol
  | TOpen | TOpenNC | TClose | TBar | TStar | TPlus | TOpt

abbreviation U :: "char \<Rightarrow> nat" where
  "U c \<equiv> of_char c"

definition syntax_character :: "nat \<Rightarrow> bool" where
  "syntax_character c = (c \<in> set (map of_char (CHR 0x5C # ''^$.*+?()[]{}|/-'')))"

text \<open>
  Tokens. A backslash at the end of the pattern is a syntax error; \<open>\s\<close> is the
  white space class and a backslash before a syntax character is that character. Other
  escapes, character classes, braces and the groups \<open>(?=\<close>, \<open>(?!\<close>, \<open>(?<\<close> are
  not modelled. \<open>]\<close> and \<open>}\<close> on their own are literals.
\<close>

fun tokenize :: "jsstring \<Rightarrow> error + token list" where
  "tokenize [] = Inr []"
| "tokenize (c # cs) =
     (if c = U (CHR 0x5C) then
        (case cs of
           [] \<Rightarrow> Inl SyntaxError
         | d # ds \<Rightarrow>
             if d = U CHR ''s'' then and_then (tokenize ds) (\<lambda>ts. Inr (TSpace # ts))
             else if syntax_character d then and_then (tokenize ds) (\<lambda>ts. Inr (TChr d # ts))
             else Inl NotModelled)
      else if c = U CHR ''('' then
        (case cs of
           [] \<Rightarrow> and_then (tokenize cs) (\<lambda>ts. Inr (TOpen # ts))
         | d # ds \<Rightarrow>
             if d = U CHR ''?'' then
               (case ds of
                  [] \<Rightarrow> Inl NotModelled
                | e # es \<Rightarrow>
                    if e = U CHR '':'' then and_then (tokenize es) (\<lambda>ts. Inr (TOpenNC # ts))
                    else Inl NotModelled)
             else and_then (tokenize cs) (\<lambda>ts. Inr (TOpen # ts)))
      else if c = U CHR ''['' \<or> c = U CHR ''{'' then Inl NotModelled
      else and_then (tokenize cs) (\<lambda>ts. Inr
        ((if c = U CHR '')'' then TClose
          else if c = U CHR ''|'' then TBar
          else if c = U CHR ''*'' then TStar
          else if c = U CHR ''+'' then TPlus
          else if c = U CHR ''?'' then TOpt
          else if c = U CHR ''.'' then TDot
          else if c = U CHR ''^'' then TBol
          else if c = U CHR ''$'' then TEol
          else TChr c) # ts)))"

text \<open>
  The parser keeps a stack of open groups. A frame is the group's capture index
  (\<open>None\<close> for \<open>(?:\<close> and for the pattern itself), its finished alternatives and the
  terms of the alternative being read, both latest first.
\<close>

type_synonym frame = "nat option \<times> regex list \<times> regex list"

definition seq_of :: "regex list \<Rightarrow> regex" where
  "seq_of terms = (case rev terms of [] \<Rightarrow> Empty | r # rs \<Rightarrow> foldl Seq r rs)"

definition close_group :: "regex list \<Rightarrow> regex list \<Rightarrow> regex" where
  "close_group alts terms =
     (case rev (seq_of terms # alts) of [] \<Rightarrow> Empty | r # rs \<Rightarrow> foldl Alt r rs)"

fun wrap :: "nat option \<Rightarrow> regex \<Rightarrow> regex" where
  "wrap None r = NonCapture r"
| "wrap (Some k) r = Capture k r"

fun atom_of :: "token \<Rightarrow> regex" where
  "atom_of (TChr c) = Chr c"
| "atom_of TDot = Dot"
| "atom_of TSpace = Space"
| "atom_of TBol = Bol"
| "atom_of TEol = Eol"
| "atom_of _ = Empty"

text \<open>
  A quantifier needs a term before it that is neither an assertion nor quantified
  already (\<open>Nothing to repeat\<close>); a \<open>?\<close> after a quantifier makes it lazy, and lazy
  quantifiers and \<open>+\<close> are not modelled.
\<close>

fun quantify :: "token \<Rightarrow> regex \<Rightarrow> error + regex" where
  "quantify q Bol = Inl SyntaxError"
| "quantify q Eol = Inl SyntaxError"
| "quantify q (Star r) = (if q = TOpt then Inl NotModelled else Inl SyntaxError)"
| "quantify q (Opt r) = (if q = TOpt then Inl NotModelled else Inl SyntaxError)"
| "quantify q r =
     (if q = TStar then Inr (Star r) else if q = TOpt then Inr (Opt r) else Inl NotModelled)"

fun parse :: "token list \<Rightarrow> frame list \<Rightarrow> nat \<Rightarrow> error + regex \<times> nat" where
  "parse [] [(k, alts, terms)] n = Inr (close_group alts terms, n)"
| "parse [] stack n = Inl SyntaxError"
| "parse (t # ts) [] n = Inl SyntaxError"
| "parse (TOpen # ts) stack n = parse ts ((Some (Suc n), [], []) # stack) (Suc n)"
| "parse (TOpenNC # ts) stack n = parse ts ((None, [], []) # stack) n"
| "parse (TClose # ts) ((k, alts, terms) # (k', alts', terms') # stack) n =
     parse ts ((k', alts', wrap k (close_group alts terms) # terms') # stack) n"
| "parse (TClose # ts) stack n = Inl SyntaxError"
| "parse (TBar # ts) ((k, alts, terms) # stack) n =
     parse ts ((k, seq_of terms # alts, []) # stack) n"
| "parse (TStar # ts) ((k, alts, []) # stack) n = Inl SyntaxError"
| "parse (TPlus # ts) ((k, alts, []) # stack) n = Inl SyntaxError"
| "parse (TOpt # ts) ((k, alts, []) # stack) n = Inl SyntaxError"
| "parse (TStar # ts) ((k, alts, r # terms) # stack) n =
     and_then (quantify TStar r) (\<lambda>r'. parse ts ((k, alts, r' # terms) # stack) n)"
| "parse (TPlus # ts) ((k, alts, r # terms) # stack) n =
     and_then (quantify TPlus r) (\<lambda>r'. parse ts ((k, alts, r' # terms) # stack) n)"
| "parse (TOpt # ts) ((k, alts, r # terms) # stack) n =
     and_then (quantify TOpt r) (\<lambda>r'. parse ts ((k, alts, r' # terms) # stack) n)"
| "parse (t # ts) ((k, alts, terms) # stack) n =
     parse ts ((k, alts, atom_of t # terms) # stack) n"

text \<open>The compiled pattern: its term, the number of capturing groups, and the flags.\<close>

record regexp =
  body :: regex
  ncaptures :: nat
  ignoreCase :: bool
  global :: bool

definition RegExp :: "jsstring \<Rightarrow> string \<Rightarrow> error + regexp" where
  "RegExp pattern flags =
     (if flags \<notin> set ['''', ''i'', ''g''] then Inl NotModelled
      else and_then (tokenize pattern) (\<lambda>ts.
           and_then (parse ts [(None, [], [])] 0) (\<lambda>(r, n).
           Inr \<lparr>body = r, ncaptures = n, ignoreCase = (flags = ''i''), global = (flags = ''g'')\<rparr>)))"

text \<open>
  Matching. \<open>run\<close> lists the states (end position and captures) in which a term can
  leave a start state, in the order in which a backtracking matcher tries them, so the
  head of the list is the match the engine reports. A repetition gives up an iteration
  that consumes nothing, and clears the captures of its body before each iteration.
\<close>

type_synonym caps = "(nat \<times> nat) option list"

definition canonicalize :: "nat \<Rightarrow> nat" where
  \<comment> \<open>the upper case form of an ASCII unit; a unit from 128 on is never equated with an
      ASCII unit, and the case pairs among those units are not modelled (see \<open>exec\<close>)\<close>
  "canonicalize c = (if 97 \<le> c \<and> c \<le> 122 then c - 32 else c)"

definition unit_eq :: "bool \<Rightarrow> nat \<Rightarrow> nat \<Rightarrow> bool" where
  "unit_eq ic p c = (if ic then canonicalize p = canonicalize c else p = c)"

definition line_terminator :: "nat \<Rightarrow> bool" where
  "line_terminator c = (c \<in> set [0x0A, 0x0D, 0x2028, 0x2029])"

definition white_space :: "nat \<Rightarrow> bool" where
  "white_space c =
     (c \<in> set [0x09, 0x0A, 0x0B, 0x0C, 0x0D, 0x20, 0xA0, 0x1680, 0x2028, 0x2029, 0x202F,
               0x205F, 0x3000, 0xFEFF]
      \<or> (0x2000 \<le> c \<and> c \<le> 0x200A))"

fun captures_in :: "regex \<Rightarrow> nat list" where
  "captures_in (Capture k r) = k # captures_in r"
| "captures_in (Seq a b) = captures_in a @ captures_in b"
| "captures_in (Alt a b) = captures_in a @ captures_in b"
| "captures_in (Star r) = captures_in r"
| "captures_in (Opt r) = captures_in r"
| "captures_in (NonCapture r) = captures_in r"
| "captures_in _ = []"

definition clear :: "nat list \<Rightarrow> caps \<Rightarrow> caps" where
  "clear ks cs = fold (\<lambda>k cs. cs[k := None]) ks cs"

function run :: "bool \<Rightarrow> jsstring \<Rightarrow> regex \<Rightarrow> nat \<Rightarrow> caps \<Rightarrow> (nat \<times> caps) list" where
  "run ic s Empty i cs = [(i, cs)]"
| "run ic s (Chr p) i cs = (if i < length s \<and> unit_eq ic p (s ! i) then [(Suc i, cs)] else [])"
| "run ic s Dot i cs = (if i < length s \<and> \<not> line_terminator (s ! i) then [(Suc i, cs)] else [])"
| "run ic s Space i cs = (if i < length s \<and> white_space (s ! i) then [(Suc i, cs)] else [])"
| "run ic s Bol i cs = (if i = 0 then [(i, cs)] else [])"
| "run ic s Eol i cs = (if i = length s then [(i, cs)] else [])"
| "run ic s (Seq a b) i cs = concat (map (\<lambda>(j, cs'). run ic s b j cs') (run ic s a i cs))"
| "run ic s (Alt a b) i cs = run ic s a i cs @ run ic s b i cs"
| "run ic s (Star r) i cs =
     concat (map (\<lambda>(j, cs'). if i < j \<and> j \<le> length s then run ic s (Star r) j cs' else [])
                 (run ic s r i (clear (captures_in r) cs)))
     @ [(i, cs)]"
| "run ic s (Opt r) i cs =
     filter (\<lambda>(j, cs'). i < j) (run ic s r i (clear (captures_in r) cs)) @ [(i, cs)]"
| "run ic s (Capture k r) i cs = map (\<lambda>(j, cs'). (j, cs'[k := Some (i, j)])) (run ic s r i cs)"
| "run ic s (NonCapture r) i cs = run ic s r i cs"
  by pat_completeness auto
termination
  by (relation "inv_image (less_than <*lex*> less_than)
                  (\<lambda>(ic, s, r, i, cs). (size r, length s - i))") auto

text \<open>
  \<open>scan\<close> is the engine's scan for the leftmost start position with a match.
\<close>

function scan :: "regexp \<Rightarrow> jsstring \<Rightarrow> nat \<Rightarrow> (nat \<times> nat \<times> caps) option" where
  "scan re s i =
     (if length s < i then None
      else (case run (ignoreCase re) s (body re) i (replicate (Suc (ncaptures re)) None) of
              [] \<Rightarrow> scan re s (Suc i)
            | (e, cs) # _ \<Rightarrow> Some (i, e, cs)))"
  by pat_completeness auto
termination
  by (relation "measure (\<lambda>(re, s, i). Suc (length s) - i)") auto

declare scan.simps [simp del]

fun literals :: "regex \<Rightarrow> nat list" where
  "literals (Chr c) = [c]"
| "literals (Seq a b) = literals a @ literals b"
| "literals (Alt a b) = literals a @ literals b"
| "literals (Star r) = literals r"
| "literals (Opt r) = literals r"
| "literals (Capture k r) = literals r"
| "literals (NonCapture r) = literals r"
| "literals _ = []"

definition unmodelled_comparison :: "regexp \<Rightarrow> jsstring \<Rightarrow> bool" where
  \<comment> \<open>an ignore-case pattern with a literal from 128 on, run on a string with a unit
      from 128 on, could need a case pair that \<open>canonicalize\<close> does not know\<close>
  "unmodelled_comparison re s =
     (ignoreCase re \<and> (\<exists>c \<in> set (literals (body re)). 128 \<le> c) \<and> (\<exists>c \<in> set s. 128 \<le> c))"

definition substring :: "jsstring \<Rightarrow> nat \<Rightarrow> nat \<Rightarrow> jsstring" where
  "substring s b e = take (e - b) (drop b s)"

text \<open>
  The result array of \<open>exec\<close>: \<open>index\<close>, element 0 (\<open>matched\<close>) and the elements
  from 1 on (\<open>captures\<close>, \<open>None\<close> for a group that took no part).
\<close>

record regexp_match =
  index :: nat
  matched :: jsstring
  captures :: "jsstring option list"

definition exec :: "regexp \<Rightarrow> jsstring \<Rightarrow> error + regexp_match option" where
  "exec re s =
     (if unmodelled_comparison re s then Inl NotModelled
      else Inr (case scan re s 0 of
                  None \<Rightarrow> None
                | Some (b, e, cs) \<Rightarrow>
                    Some \<lparr>index = b, matched = substring s b e,
                          captures = map (map_option (\<lambda>(x, y). substring s x y)) (tl cs)\<rparr>))"

definition test :: "regexp \<Rightarrow> jsstring \<Rightarrow> error + bool" where
  "test re s = and_then (exec re s) (\<lambda>m. Inr (m \<noteq> None))"

definition RegExp_exec :: "jsstring \<Rightarrow> string \<Rightarrow> jsstring \<Rightarrow> error + regexp_match option" where
  \<comment> \<open>\<open>new RegExp(pattern, flags).exec(s)\<close>\<close>
  "RegExp_exec pattern flags s = and_then (RegExp pattern flags) (\<lambda>re. exec re s)"

definition RegExp_test :: "jsstring \<Rightarrow> string \<Rightarrow> jsstring \<Rightarrow> error + bool" where
  \<comment> \<open>\<open>new RegExp(pattern, flags).test(s)\<close>\<close>
  "RegExp_test pattern flags s = and_then (RegExp pattern flags) (\<lambda>re. test re s)"

text \<open>
  \<open>s.replace(re, subst)\<close> for a global pattern and a replacement without \<open>$\<close>:
  every match, left to right, is replaced; after an empty match the scan moves on by one
  unit.
\<close>

function replace_loop :: "regexp \<Rightarrow> jsstring \<Rightarrow> jsstring \<Rightarrow> nat \<Rightarrow> jsstring" where
  "replace_loop re s subst i =
     (if length s < i then []
      else (case run (ignoreCase re) s (body re) i (replicate (Suc (ncaptures re)) None) of
              [] \<Rightarrow> (if i < length s then s ! i # replace_loop re s subst (Suc i) else [])
            | (e, cs) # _ \<Rightarrow>
                if i < e then subst @ replace_loop re s subst e
                else subst @ (if i < length s then s ! i # replace_loop re s subst (Suc i) else [])))"
  by pat_completeness auto
termination
  by (relation "measure (\<lambda>(re, s, subst, i). Suc (length s) - i)") auto

declare replace_loop.simps [simp del]

definition replace :: "jsstring \<Rightarrow> regexp \<Rightarrow> jsstring \<Rightarrow> error + jsstring" where
  "replace s re subst =
     (if \<not> global re \<or> U CHR ''$'' \<in> set subst \<or> unmodelled_comparison re s
      then Inl NotModelled
      else Inr (replace_loop re s subst 0))"

section \<open>searchRegex\<close>

definition similar :: "jsstring list \<Rightarrow> jsstring" where
  \<comment> \<open>the line \<open>(?:a|b|c)\<close> of the table, from its alternatives\<close>
  "similar alts =
     utf16 ''(?:'' @ concat (case alts of [] \<Rightarrow> [] | a # as \<Rightarrow> a # map (\<lambda>b. U CHR ''|'' # b) as)
     @ utf16 '')''"

definition similarCharacters :: "jsstring list" where
  "similarCharacters =
     [[U (CHR 0x5C), U CHR ''s''],
      similar [utf16 ''AE'', [0x00C6], [0x01FC]],
      similar [utf16 ''ae'', [0x00E6], [0x01FD]],
      similar [utf16 ''IJ'', [0x0132]],
      similar [utf16 ''ij'', [0x0133]],
      similar [utf16 ''OE'', [0x0152]],
      similar [utf16 ''oe'', [0x0153]],
      similar [utf16 ''TH'', [0x00DE]],
      similar [utf16 ''th'', [0x00FE]],
      similar [utf16 ''A'', [0x00C0], [0x00C1], [0x00C2], [0x00C3], [0x00C4], [0x00C5], [0x1EA4],
        [0x1EAE], [0x1EB2], [0x1EB4], [0x1EB6], [0x1EA6], [0x1EB0], [0x0202], [0x0100],
        [0x0102], [0x0104], [0x01CD], [0x01FA], utf16 ''A'', [0x0200], utf16 ''A''],
      similar [utf16 ''C'', [0x00C7], [0x1E08], [0x0106], [0x0108], [0x010A], [0x010C],
        utf16 ''C'', [0x010C]],
      similar [utf16 ''E'', [0x00C8], [0x00C9], [0x00CA], [0x00CB], [0x1EBE], [0x1E16], [0x1EC0],
        [0x1E14], [0x1E1C], [0x0206], [0x0112], [0x0114], [0x0116], [0x0118], [0x011A],
        utf16 ''E'', [0x0204], [0x00CA], [0x0228], [0x0190]],
      similar [utf16 ''I'', [0x00CC], [0x00CD], [0x00CE], [0x00CF], [0x1E2E], [0x020A], [0x0128],
        [0x012A], [0x012C], [0x012E], [0x0130], [0x01CF], utf16 ''I'', [0x0208],
        utf16 ''I'', [0x0197]],
      similar [utf16 ''D'', [0x00D0], [0x010E], [0x0110], [0x1E10]],
      similar [utf16 ''N'', [0x00D1], [0x0143], [0x0145], [0x0147], utf16 ''N'', [0x01F8]],
      similar [utf16 ''O'', [0x00D2], [0x00D3], [0x00D4], [0x00D5], [0x00D6], [0x00D8], [0x1ED0],
        [0x1E4C], [0x1E52], [0x020E], [0x014C], [0x014E], [0x0150], [0x01A0], [0x01D1],
        [0x01FE], [0x1ED2], [0x1E50], [0x020C], utf16 ''O''],
      similar [utf16 ''U'', [0x00D9], [0x00DA], [0x00DB], [0x00DC], [0x0168], [0x016A], [0x016C],
        [0x016E], [0x0170], [0x0172], [0x0216], [0x01AF], [0x01D3], [0x01D5], [0x01D7],
        [0x01D9], [0x01DB], [0x1EE8], [0x1E78], [0x1EEA], [0x0214], utf16 ''U''],
      similar [utf16 ''Y'', [0x00DD], [0x0176], [0x0178], utf16 ''Y'', [0x1EF2], utf16 ''Y''],
      similar [utf16 ''a'', [0x00E0], [0x00E1], [0x00E2], [0x00E3], [0x00E4], [0x00E5], [0x1EA5],
        [0x1EAF], [0x1EB3], [0x1EB5], [0x1EB7], [0x1EA7], [0x1EB1], [0x0203], [0x0101],
        [0x0103], [0x0105], [0x01CE], [0x01FB], utf16 ''a'', [0x0201], utf16 ''a''],
      similar [utf16 ''c'', [0x00E7], [0x1E09], [0x0107], [0x0109], [0x010B], [0x010D],
        utf16 ''c'', [0x010D]],
      similar [utf16 ''e'', [0x00E8], [0x00E9], [0x00EA], [0x00EB], [0x1EBF], [0x1E17], [0x1EC1],
        [0x1E15], [0x1E1D], [0x0207], [0x0113], [0x0115], [0x0117], [0x0119], [0x011B],
        utf16 ''e'', [0x0205], [0x00EA], [0x0229], [0x025B]],
      similar [utf16 ''i'', [0x00EC], [0x00ED], [0x00EE], [0x00EF], [0x1E2F], [0x020B], [0x0129],
        [0x012B], [0x012D], [0x012F], [0x0131], [0x01D0], utf16 ''i'', [0x0209],
        utf16 ''i'', [0x0268]],
      similar [utf16 ''d'', [0x00F0], [0x010F], [0x0111], [0x1E11]],
      similar [utf16 ''n'', [0x00F1], [0x0144], [0x0146], [0x0148], [0x0149], utf16 ''n'',
        [0x01F9]],
      similar [utf16 ''o'', [0x00F2], [0x00F3], [0x00F4], [0x00F5], [0x00F6], [0x00F8], [0x1ED1],
        [0x1E4D], [0x1E53], [0x020F], [0x014D], [0x014F], [0x0151], [0x01A1], [0x01D2],
        [0x01FF], [0x1ED3], [0x1E51], [0x020D], utf16 ''o''],
      similar [utf16 ''u'', [0x00F9], [0x00FA], [0x00FB], [0x00FC], [0x0169], [0x016B], [0x016D],
        [0x016F], [0x0171], [0x0173], [0x0217], [0x01B0], [0x01D4], [0x01D6], [0x01D8],
        [0x01DA], [0x01DC], [0x1EE9], [0x1E79], [0x1EEB], [0x0215], utf16 ''u''],
      similar [utf16 ''y'', [0x00FD], [0x00FF], [0x0177], utf16 ''y'', [0x1EF3], utf16 ''y''],
      similar [utf16 ''G'', [0x011C], [0x01F4], [0x011E], [0x0120], [0x0122], [0x01E6]],
      similar [utf16 ''g'', [0x011D], [0x01F5], [0x011F], [0x0121], [0x0123], [0x01E7]],
      similar [utf16 ''H'', [0x0124], [0x0126], [0x1E2A], [0x021E], [0x1E28]],
      similar [utf16 ''h'', [0x0125], [0x0127], [0x1E2B], [0x021F], [0x1E29]],
      similar [utf16 ''J'', [0x0134], utf16 ''J''],
      similar [utf16 ''j'', [0x0135], [0x01F0]],
      similar [utf16 ''K'', [0x0136], [0x1E30], utf16 ''K'', [0x01E8]],
      similar [utf16 ''k'', [0x0137], [0x1E31], utf16 ''k'', [0x01E9]],
      similar [utf16 ''L'', [0x0139], [0x013B], [0x013D], [0x013F]],
      similar [utf16 ''l'', [0x013A], [0x013C], [0x013E], [0x0140], [0x0141], [0x0142]],
      similar [utf16 ''M'', [0x1E3E], utf16 ''M'', utf16 ''M'', utf16 ''M''],
      similar [utf16 ''m'', [0x1E3F], utf16 ''m'', utf16 ''m'', utf16 ''m''],
      similar [utf16 ''P'', utf16 ''P'', [0x1E54], utf16 ''P''],
      similar [utf16 ''p'', utf16 ''p'', [0x1E55], utf16 ''p''],
      similar [utf16 ''R'', [0x0154], [0x0156], [0x0158], utf16 ''R'', [0x0212], [0x0210],
        [0x0158]],
      similar [utf16 ''r'', [0x0155], [0x0157], [0x0159], utf16 ''r'', [0x0213], [0x0211],
        [0x0159]],
      similar [utf16 ''S'', [0x015A], [0x015C], [0x015E], [0x0218], [0x0160], [0x1E64], [0x1E66]],
      similar [utf16 ''s'', [0x015B], [0x015D], [0x0219], [0x015F], [0x0161], [0x017F], [0x1E65],
        [0x1E67]],
      similar [utf16 ''T'', [0x0162], [0x021A], [0x0164], [0x0166], utf16 ''T''],
      similar [utf16 ''t'', [0x0163], [0x021B], [0x0165], [0x0167], utf16 ''t''],
      similar [utf16 ''V'', utf16 ''V'', utf16 ''V''],
      similar [utf16 ''v'', utf16 ''v'', utf16 ''v''],
      similar [utf16 ''W'', [0x0174], [0x1E82], [0x1E80], utf16 ''W''],
      similar [utf16 ''w'', [0x0175], [0x1E83], [0x1E81], utf16 ''w''],
      similar [utf16 ''X'', utf16 ''X'', utf16 ''X'', utf16 ''X'', utf16 ''X''],
      similar [utf16 ''x'', utf16 ''x'', utf16 ''x'', utf16 ''x'', utf16 ''x''],
      similar [utf16 ''Z'', [0x0179], [0x017B], [0x017D], utf16 ''Z''],
      similar [utf16 ''z'', [0x017A], [0x017C], [0x017E], utf16 ''z''],
      similar [utf16 ''f'', [0x0192], utf16 ''f''],
      similar [[0x0413], [0x0403]],
      similar [[0x0433], [0x0453]],
      similar [[0x041A], [0x040C]],
      similar [[0x043A], [0x045C]],
      similar [utf16 ''B'', utf16 ''B'', utf16 ''B''],
      similar [utf16 ''b'', utf16 ''b'', utf16 ''b''],
      similar [utf16 ''F'', utf16 ''F''],
      similar [utf16 ''Q'', utf16 ''Q'', utf16 ''Q''],
      similar [utf16 ''q'', utf16 ''q'', utf16 ''q'']]"

fun searchRegex_loop :: "jsstring list \<Rightarrow> jsstring \<Rightarrow> error + jsstring" where
  "searchRegex_loop [] search = Inr search"
| "searchRegex_loop (g # gs) search =
     and_then (RegExp g ''g'') (\<lambda>re.
     and_then (replace search re g) (\<lambda>search'.
     searchRegex_loop gs search'))"

definition searchRegex :: "jsstring \<Rightarrow> error + jsstring" where
  "searchRegex search = searchRegex_loop similarCharacters search"

section \<open>Options, accessors and results\<close>

text \<open>
  The item is generic; without accessors the source casts it to a string, so an item is
  either a string or some other value. The value an accessor function returns is a
  string, an array of strings, or \<open>null\<close> or \<open>undefined\<close>.

  An optional property is an \<open>option\<close>, \<open>None\<close> when it is absent. Field names are
  those of the source, except that \<open>threshold\<close> of \<open>AccessorOptions\<close> is
  \<open>accessor_threshold\<close> and the fields of \<open>AccessorAttributes\<close> carry the prefix
  \<open>attr_\<close>, since one theory cannot declare a field name twice. The match result that
  \<open>RankingInfo\<close> spreads into itself is its field \<open>matchRanking\<close>.
\<close>

datatype 'a item = Text jsstring | Object 'a

datatype accessed = Nullish | Single jsstring | Many "jsstring list"

type_synonym 'a AccessorFn = "'a item \<Rightarrow> accessed"

record 'a AccessorOptions =
  accessor :: "'a AccessorFn"
  accessor_threshold :: "number option"
  maxRanking :: "number option"
  minRanking :: "number option"

datatype 'a Accessor = Fn "'a AccessorFn" | Opts "'a AccessorOptions"

record AccessorAttributes =
  attr_threshold :: "number option"
  attr_maxRanking :: number
  attr_minRanking :: number

record 'a RankItemOptions =
  accessors :: "'a Accessor list option"
  threshold :: "number option"
  keepDiacritics :: "bool option"

record 'a RankingInfo =
  rankedValue :: "'a item"
  matchRanking :: MatchRanking
  accessorIndex :: int
  accessorThreshold :: number
  passed :: bool

section \<open>getMatchRanking\<close>

fun map_result :: "('a \<Rightarrow> error + 'b) \<Rightarrow> 'a list \<Rightarrow> error + 'b list" where
  "map_result f [] = Inr []"
| "map_result f (x # xs) = and_then (f x) (\<lambda>y. and_then (map_result f xs) (\<lambda>ys. Inr (y # ys)))"

definition acronym_piece :: "jsstring \<Rightarrow> jsstring" where
  \<comment> \<open>the template literal of the acronym step, for the expansion of one character\<close>
  "acronym_piece g = utf16 ''(^|'' @ [U (CHR 0x5C)] @ utf16 ''s|-)('' @ g @ utf16 '')(.*)''"

definition acronym_pattern :: "jsstring \<Rightarrow> error + jsstring" where
  \<comment> \<open>\<open>stringToRank.split('').map(character => ...).join('')\<close>\<close>
  "acronym_pattern stringToRank =
     and_then
       (map_result
          (\<lambda>character. and_then (searchRegex [character]) (\<lambda>g. Inr (acronym_piece g)))
          stringToRank)
       (\<lambda>pieces. Inr (concat pieces))"

text \<open>
  The loop over \<open>match.slice(1).entries()\<close>; reading the length of a group that took
  no part in the match is a \<open>TypeError\<close>.
\<close>

fun acronym_indexes :: "jsstring option list \<Rightarrow> nat \<Rightarrow> int \<Rightarrow> error + int list" where
  "acronym_indexes [] arrayIndex idx = Inr []"
| "acronym_indexes (None # vs) arrayIndex idx = Inl TypeError"
| "acronym_indexes (Some v # vs) arrayIndex idx =
     and_then (acronym_indexes vs (Suc arrayIndex) (idx + int (length v))) (\<lambda>indexes.
     Inr (if (arrayIndex + 2) mod 3 = 0 then idx # indexes else indexes))"

definition getMatchRanking ::
  "jsstring \<Rightarrow> jsstring \<Rightarrow> 'a RankItemOptions \<Rightarrow> error + MatchRanking" where
  "getMatchRanking testString stringToRank options =
     and_then (if keepDiacritics options = Some True then Inr stringToRank
               else searchRegex stringToRank) (\<lambda>searchString.
     and_then (RegExp_test (utf16 ''^'' @ searchString @ utf16 ''$'') '''' testString) (\<lambda>found.
     if found then Inr CaseSensitiveEqual
     else
     and_then (RegExp_test (utf16 ''^'' @ searchString @ utf16 ''$'') ''i'' testString) (\<lambda>found.
     if found then Inr Equal
     else
     and_then (RegExp_exec (utf16 ''^'' @ searchString) ''i'' testString) (\<lambda>m.
     case m of
       Some m \<Rightarrow> Inr (StartsWith (int (length (matched m))))
     | None \<Rightarrow>
     and_then (RegExp_exec ([U (CHR 0x5C)] @ utf16 ''s'' @ searchString) ''i'' testString) (\<lambda>m.
     case m of
       Some m \<Rightarrow> Inr (WordStartsWith (int (index m) + 1) (int (length (matched m)) - 1))
     | None \<Rightarrow>
     and_then (RegExp_exec searchString ''i'' testString) (\<lambda>m.
     case m of
       Some m \<Rightarrow> Inr (Contains (int (index m)) (int (length (matched m))))
     | None \<Rightarrow>
     and_then (acronym_pattern stringToRank) (\<lambda>pattern.
     and_then (RegExp_exec pattern '''' testString) (\<lambda>m.
     case m of
       Some m \<Rightarrow>
         and_then (acronym_indexes (captures m) 0 (int (index m))) (\<lambda>indexes.
         Inr (Acronym indexes))
     | None \<Rightarrow> Inr (getClosenessRanking testString stringToRank)))))))))"

section \<open>Extraction\<close>

definition getItemValues :: "'a item \<Rightarrow> 'a Accessor \<Rightarrow> jsstring list" where
  "getItemValues item acc =
     (let accessorFn = (case acc of Fn f \<Rightarrow> f | Opts opts \<Rightarrow> accessor opts)
      in case accessorFn item of
           Nullish \<Rightarrow> []
         | Many vs \<Rightarrow> vs
         | Single v \<Rightarrow> [v])"

definition defaultKeyAttributes :: AccessorAttributes where
  "defaultKeyAttributes =
     \<lparr>attr_threshold = None, attr_maxRanking = PosInfinity, attr_minRanking = NegInfinity\<rparr>"

fun getAccessorAttributes :: "'a Accessor \<Rightarrow> AccessorAttributes" where
  "getAccessorAttributes (Fn f) = defaultKeyAttributes"
| "getAccessorAttributes (Opts opts) =
     \<lparr>attr_threshold = accessor_threshold opts,
      attr_maxRanking = (case maxRanking opts of
                           None \<Rightarrow> attr_maxRanking defaultKeyAttributes | Some r \<Rightarrow> r),
      attr_minRanking = (case minRanking opts of
                           None \<Rightarrow> attr_minRanking defaultKeyAttributes | Some r \<Rightarrow> r)\<rparr>"

record rankValue =
  itemValue :: jsstring
  attributes :: AccessorAttributes

fun getAllValuesToRank :: "'a item \<Rightarrow> 'a Accessor list \<Rightarrow> rankValue list" where
  "getAllValuesToRank item [] = []"
| "getAllValuesToRank item (acc # rest) =
     (let attrs = getAccessorAttributes acc;
          itemValues = getItemValues item acc
      in map (\<lambda>v. \<lparr>itemValue = v, attributes = attrs\<rparr>) itemValues)
     @ getAllValuesToRank item rest"

section \<open>rankItem\<close>

definition clampRank :: "number \<Rightarrow> AccessorAttributes \<Rightarrow> number" where
  \<comment> \<open>the two assignments to \<open>newRank\<close> after the scoring\<close>
  "clampRank r attrs =
     (let newRank =
            (if num_lt r (attr_minRanking attrs) \<and> num_ge r MATCHES then attr_minRanking attrs
             else if num_gt r (attr_maxRanking attrs) then attr_maxRanking attrs
             else r)
      in num_min newRank (attr_maxRanking attrs))"

definition replaces_best :: "number \<Rightarrow> number \<Rightarrow> MatchRanking \<Rightarrow> MatchRanking \<Rightarrow> bool" where
  \<comment> \<open>the condition of the \<open>if\<close> that updates the best match\<close>
  "replaces_best newRank thr mr bestMatchRanking =
     (num_ge newRank thr \<and>
      (num_gt newRank (rank bestMatchRanking) \<or>
       (rank mr = MATCHES \<and> rank bestMatchRanking = MATCHES \<and>
        num_gt (closeness mr) (closeness bestMatchRanking))))"

text \<open>
  The loop over \<open>valuesToRank\<close>. Its variables \<open>bestMatchRanking\<close>, \<open>passed\<close>,
  \<open>accessorIndex\<close>, \<open>accessorThreshold\<close> and \<open>rankedValue\<close> are the fields of the
  object the function returns, so the loop state is that record. \<open>thr\<close> is
  \<open>options.threshold\<close>.
\<close>

fun rankItem_loop ::
  "jsstring \<Rightarrow> 'a RankItemOptions \<Rightarrow> number \<Rightarrow> rankValue list \<Rightarrow> nat \<Rightarrow> 'a RankingInfo
   \<Rightarrow> error + 'a RankingInfo" where
  "rankItem_loop val options thr [] i best = Inr best"
| "rankItem_loop val options thr (rv # rest) i best =
     and_then (getMatchRanking (itemValue rv) val options) (\<lambda>mr.
       let newRank = clampRank (rank mr) (attributes rv);
           threshold' = (case attr_threshold (attributes rv) of None \<Rightarrow> thr | Some t \<Rightarrow> t)
       in rankItem_loop val options thr rest (Suc i)
            (if replaces_best newRank threshold' mr (matchRanking best)
             then \<lparr>rankedValue = Text (itemValue rv), matchRanking = mr,
                   accessorIndex = int i, accessorThreshold = threshold', passed = True\<rparr>
             else best))"

text \<open>
  \<open>rankItem\<close> assigns to \<open>options.threshold\<close>. The options object is the caller's
  when one was passed, so the function returns, next to its result, the state of that
  object after the call (\<open>None\<close> when the caller passed none). Without accessors the
  item is used as a string; the coercion of another value is not modelled.
\<close>

definition options_or_empty :: "'a RankItemOptions option \<Rightarrow> 'a RankItemOptions" where
  \<comment> \<open>\<open>options || {}\<close>\<close>
  "options_or_empty options_arg =
     (case options_arg of
        None \<Rightarrow> \<lparr>accessors = None, threshold = None, keepDiacritics = None\<rparr>
      | Some opts \<Rightarrow> opts)"

definition threshold_or_MATCHES :: "'a RankItemOptions \<Rightarrow> number" where
  \<comment> \<open>\<open>options.threshold ?? rankings.MATCHES\<close>\<close>
  "threshold_or_MATCHES options = (case threshold options of None \<Rightarrow> MATCHES | Some t \<Rightarrow> t)"

definition rankItem ::
  "'a item \<Rightarrow> jsstring \<Rightarrow> 'a RankItemOptions option
   \<Rightarrow> (error + 'a RankingInfo) \<times> 'a RankItemOptions option" where
  "rankItem item val options_arg =
     (let options0 = options_or_empty options_arg;
          thr = threshold_or_MATCHES options0;
          options = options0\<lparr>threshold := Some thr\<rparr>;
          result =
            (case accessors options of
               None \<Rightarrow>
                 (case item of
                    Text testString \<Rightarrow>
                      and_then (getMatchRanking testString val options) (\<lambda>mr.
                        Inr \<lparr>rankedValue = item, matchRanking = mr, accessorIndex = - 1,
                             accessorThreshold = thr, passed = num_ge (rank mr) thr\<rparr>)
                  | Object x \<Rightarrow> Inl NotModelled)
             | Some accs \<Rightarrow>
                 rankItem_loop val options thr (getAllValuesToRank item accs) 0
                   \<lparr>rankedValue = item, matchRanking = NoMatch, accessorIndex = - 1,
                    accessorThreshold = thr, passed = False\<rparr>)
      in (result, map_option (\<lambda>opts. options) options_arg))"

section \<open>compareItems\<close>


section \<open>rankItem over a store\<close>

text \<open>
  The item, the accessor array and the options object belong to the caller, and
  \<open>rankItem\<close> holds references to them. Here the function runs over a store of
  objects: a reference is an index into the store, every read of a property is a read of
  the store, and the assignment to \<open>options.threshold\<close> is a write to it. The
  object \<open>{}\<close> that replaces a missing options argument is allocated at the end of
  the store. A reference that does not hold an object of the expected kind is outside
  the embedding (\<open>NotModelled\<close>); an \<open>undefined\<close> threshold in a comparison is NaN.
\<close>

type_synonym ref = nat

record options_object =
  accessors_ref :: "ref option"
  threshold_prop :: "number option"
  keepDiacritics_prop :: "bool option"

datatype 'a object =
    ItemObject "'a item"
  | ArrayObject "'a Accessor list"
  | OptionsObject options_object

type_synonym 'a store = "'a object list"

definition read_item :: "'a store \<Rightarrow> ref \<Rightarrow> error + 'a item" where
  "read_item s r =
     (if r < length s then (case s ! r of ItemObject item \<Rightarrow> Inr item | _ \<Rightarrow> Inl NotModelled)
      else Inl NotModelled)"

definition read_array :: "'a store \<Rightarrow> ref \<Rightarrow> error + 'a Accessor list" where
  "read_array s r =
     (if r < length s then (case s ! r of ArrayObject accs \<Rightarrow> Inr accs | _ \<Rightarrow> Inl NotModelled)
      else Inl NotModelled)"

definition read_options :: "'a store \<Rightarrow> ref \<Rightarrow> error + 'a RankItemOptions" where
  \<comment> \<open>the options object at a reference, with the accessor array it refers to\<close>
  "read_options s r =
     (if r < length s then
        (case s ! r of
           OptionsObject oo \<Rightarrow>
             (case accessors_ref oo of
                None \<Rightarrow> Inr \<lparr>accessors = None, threshold = threshold_prop oo,
                              keepDiacritics = keepDiacritics_prop oo\<rparr>
              | Some ra \<Rightarrow>
                  and_then (read_array s ra) (\<lambda>accs.
                    Inr \<lparr>accessors = Some accs, threshold = threshold_prop oo,
                         keepDiacritics = keepDiacritics_prop oo\<rparr>))
         | _ \<Rightarrow> Inl NotModelled)
      else Inl NotModelled)"

definition read_options_object :: "'a store \<Rightarrow> ref \<Rightarrow> error + options_object" where
  "read_options_object s r =
     (if r < length s then (case s ! r of OptionsObject oo \<Rightarrow> Inr oo | _ \<Rightarrow> Inl NotModelled)
      else Inl NotModelled)"

definition number_of :: "number option \<Rightarrow> number" where
  "number_of t = (case t of None \<Rightarrow> NaN | Some n \<Rightarrow> n)"

fun rankItem_store_loop ::
  "'a store \<Rightarrow> ref \<Rightarrow> jsstring \<Rightarrow> rankValue list \<Rightarrow> nat \<Rightarrow> 'a RankingInfo
   \<Rightarrow> (error + 'a RankingInfo) \<times> 'a store" where
  "rankItem_store_loop s ro val [] i best = (Inr best, s)"
| "rankItem_store_loop s ro val (rv # rest) i best =
     (case read_options s ro of
        Inl e \<Rightarrow> (Inl e, s)
      | Inr options \<Rightarrow>
          (case getMatchRanking (itemValue rv) val options of
             Inl e \<Rightarrow> (Inl e, s)
           | Inr mr \<Rightarrow>
               let newRank = clampRank (rank mr) (attributes rv);
                   threshold' = (case attr_threshold (attributes rv) of
                                   None \<Rightarrow> number_of (threshold options) | Some t \<Rightarrow> t)
               in rankItem_store_loop s ro val rest (Suc i)
                    (if replaces_best newRank threshold' mr (matchRanking best)
                     then \<lparr>rankedValue = Text (itemValue rv), matchRanking = mr,
                           accessorIndex = int i, accessorThreshold = threshold', passed = True\<rparr>
                     else best)))"

text \<open>The function from its test of \<open>options.accessors\<close> on.\<close>

definition rankItem_store_body ::
  "'a store \<Rightarrow> ref \<Rightarrow> jsstring \<Rightarrow> ref \<Rightarrow> (error + 'a RankingInfo) \<times> 'a store" where
  "rankItem_store_body s item_ref val ro =
     (case read_options s ro of
        Inl e \<Rightarrow> (Inl e, s)
      | Inr options \<Rightarrow>
          (case read_item s item_ref of
             Inl e \<Rightarrow> (Inl e, s)
           | Inr item \<Rightarrow>
               (case accessors options of
                  None \<Rightarrow>
                    (case item of
                       Text testString \<Rightarrow>
                         (and_then (getMatchRanking testString val options) (\<lambda>mr.
                            Inr \<lparr>rankedValue = item, matchRanking = mr, accessorIndex = - 1,
                                 accessorThreshold = number_of (threshold options),
                                 passed = num_ge (rank mr) (number_of (threshold options))\<rparr>),
                          s)
                     | Object x \<Rightarrow> (Inl NotModelled, s))
                | Some accs \<Rightarrow>
                    rankItem_store_loop s ro val (getAllValuesToRank item accs) 0
                      \<lparr>rankedValue = item, matchRanking = NoMatch, accessorIndex = - 1,
                       accessorThreshold = number_of (threshold options), passed = False\<rparr>)))"

definition rankItem_store ::
  "'a store \<Rightarrow> ref \<Rightarrow> jsstring \<Rightarrow> ref option \<Rightarrow> (error + 'a RankingInfo) \<times> 'a store" where
  "rankItem_store s item_ref val options_ref =
     (let (ro, s1) =
            (case options_ref of
               None \<Rightarrow> (length s, s @ [OptionsObject \<lparr>accessors_ref = None, threshold_prop = None,
                                                    keepDiacritics_prop = None\<rparr>])
             | Some r \<Rightarrow> (r, s))
      in case read_options_object s1 ro of
           Inl e \<Rightarrow> (Inl e, s1)
         | Inr oo \<Rightarrow>
             rankItem_store_body
               (s1[ro := OptionsObject
                           (oo\<lparr>threshold_prop :=
                                 Some (case threshold_prop oo of
                                         None \<Rightarrow> MATCHES | Some t \<Rightarrow> t)\<rparr>)])
               item_ref val ro)"

section \<open>Notions used in the statements\<close>

text \<open>
  The scan of the fuzzy matcher as the specification words it: the first occurrence of
  the first query character at or after position 0, then for each further character its
  first occurrence after the previous match; \<open>None\<close> when a character is not found.
  The result lists the index of every matched character.
\<close>

fun spec_matched_indexes :: "jsstring \<Rightarrow> jsstring \<Rightarrow> nat \<Rightarrow> nat list option" where
  "spec_matched_indexes testString [] start = Some []"
| "spec_matched_indexes testString (c # cs) start =
     (case find (\<lambda>j. testString ! j = c) [start..<length testString] of
        None \<Rightarrow> None
      | Some j \<Rightarrow> map_option ((#) j) (spec_matched_indexes testString cs (Suc j)))"

definition spec_spread :: "nat list \<Rightarrow> int" where
  \<comment> \<open>the spread of the specification: (index of the last matched character + 1) minus
      the index of the first\<close>
  "spec_spread js = (int (last js) + 1) - int (hd js)"

definition index_distance :: "nat list \<Rightarrow> int" where
  \<comment> \<open>index of the last matched character minus the index of the first\<close>
  "index_distance js = int (last js) - int (hd js)"

definition closeness_of :: "int \<Rightarrow> nat \<Rightarrow> int \<Rightarrow> number" where
  \<comment> \<open>\<open>matchedCharCount / queryLength / spread\<close>\<close>
  "closeness_of matchedCharCount queryLength spread =
     num_div (num_div (Num (of_int matchedCharCount)) (Num (of_nat queryLength)))
             (Num (of_int spread))"


definition consistent :: "number \<Rightarrow> 'a RankingInfo \<Rightarrow> bool" where
  \<comment> \<open>the invariant of the loop of \<open>rankItem\<close> behind \<open>passed\<close>\<close>
  "consistent thr best =
     (if passed best then num_ge (rank (matchRanking best)) (accessorThreshold best)
      else matchRanking best = NoMatch \<and> accessorThreshold best = thr)"

text \<open>The options object \<open>{}\<close>.\<close>

definition defaults :: "'a RankItemOptions" where
  "defaults = \<lparr>accessors = None, threshold = None, keepDiacritics = None\<rparr>"

text \<open>Example data: an item \<open>{name: n}\<close> is \<open>Object n\<close>, read by \<open>item => item.name\<close>.\<close>

definition name :: "jsstring AccessorFn" where
  "name item = (case item of Object n \<Rightarrow> Single n | Text s \<Rightarrow> Nullish)"



text \<open>A store of the caller: the item \<open>{name: 'q'}\<close>, the accessor array, and options.\<close>

definition caller_store :: "jsstring store" where
  "caller_store =
     [ItemObject (Object (utf16 ''q'')),
      ArrayObject [Fn name],
      OptionsObject \<lparr>accessors_ref = Some 1, threshold_prop = None, keepDiacritics_prop = None\<rparr>]"


definition similar_q :: jsstring where
  \<comment> \<open>the line of the table for \<open>q\<close>\<close>
  "similar_q = similar [utf16 ''q'', utf16 ''q'', utf16 ''q'']"

definition similar_f :: jsstring where
  \<comment> \<open>the line of the table for \<open>f\<close>\<close>
  "similar_f = similar [utf16 ''f'', [0x0192], utf16 ''f'']"

section \<open>Numbers and ranks\<close>

lemmas rankings_defs =
  CASE_SENSITIVE_EQUAL_def EQUAL_def STARTS_WITH_def WORD_STARTS_WITH_def
  CONTAINS_def ACRONYM_def MATCHES_def NO_MATCH_def

section \<open>The fuzzy matcher\<close>

lemma findMatchingCharacter_find:
  "findMatchingCharacter (Some c) s j n =
     (case find (\<lambda>k. s ! k = c) [j..<length s] of
        None \<Rightarrow> (- 1, n)
      | Some k \<Rightarrow> (int k + 1, Suc n))"
proof (induction "Some c" s j n rule: findMatchingCharacter.induct)
  case (1 string j count)
  show ?case
  proof (cases "j < length string")
    case True
    then have upt: "[j..<length string] = j # [Suc j..<length string]"
      by (simp add: upt_conv_Cons)
    show ?thesis
    proof (cases "string ! j = c")
      case eq: True
      with True upt show ?thesis
        by (simp add: findMatchingCharacter.simps [of "Some c" string j count])
    next
      case neq: False
      with True upt "1.hyps" show ?thesis
        by (simp add: findMatchingCharacter.simps [of "Some c" string j count])
    qed
  next
    case False
    then show ?thesis
      by (simp add: findMatchingCharacter.simps [of "Some c" string j count])
  qed
qed

lemma findMatchingCharacter_undefined: "findMatchingCharacter None s j n = (- 1, n)"
proof (induction "None :: nat option" s j n rule: findMatchingCharacter.induct)
  case (1 string j count)
  then show ?case
    by (simp add: findMatchingCharacter.simps [of None string j count])
qed

lemma find_upt_bounds:
  "find P [a..<b] = Some k \<Longrightarrow> a \<le> k \<and> k < b"
  by (auto simp: find_Some_iff)

lemma spec_matched_indexes_length:
  "spec_matched_indexes t q p = Some js \<Longrightarrow> length js = length q"
  by (induction q arbitrary: p js) (auto split: option.splits)

lemma matchRest_spec:
  "i \<le> length q \<Longrightarrow> 0 \<le> cn \<Longrightarrow>
   matchRest t q i cn n =
     (case spec_matched_indexes t (drop i q) (nat cn) of
        None \<Rightarrow> None
      | Some js \<Rightarrow> Some (if js = [] then cn else int (last js) + 1, n + length js))"
proof (induction t q i cn n rule: matchRest.induct)
  case (1 testString stringToRank i charNumber count)
  show ?case
  proof (cases "i < length stringToRank")
    case False
    with "1.prems" show ?thesis
      by (subst matchRest.simps) simp
  next
    case True
    then have d: "drop i stringToRank = stringToRank ! i # drop (Suc i) stringToRank"
      by (simp add: Cons_nth_drop_Suc)
    show ?thesis
    proof (cases "find (\<lambda>k. testString ! k = stringToRank ! i) [nat charNumber..<length testString]")
      case None
      with True d show ?thesis
        by (subst matchRest.simps) (simp add: charAt_def findMatchingCharacter_find)
    next
      case (Some k)
      have f: "findMatchingCharacter (charAt stringToRank i) testString (nat charNumber) count
                 = (int k + 1, Suc count)"
        using True Some by (simp add: charAt_def findMatchingCharacter_find)
      have ih: "matchRest testString stringToRank (Suc i) (int k + 1) (Suc count) =
          (case spec_matched_indexes testString (drop (Suc i) stringToRank) (Suc k) of
             None \<Rightarrow> None
           | Some js \<Rightarrow> Some (if js = [] then int k + 1 else int (last js) + 1, Suc count + length js))"
        using "1.IH" [OF True f [symmetric]] True by (simp add: nat_add_distrib)
      show ?thesis
        apply (subst matchRest.simps)
        using True d Some
        apply (simp add: f ih split: option.splits)
        done
    qed
  qed
qed

lemma closeness_formula:
  "0 < x \<Longrightarrow>
   num_mul (num_div (Num x) (Num x)) (num_div (Num 1) (Num l))
   = num_div (num_div (Num x) (Num x)) (Num l)"
  by (simp add: signed_infinity_def)

lemma getClosenessRanking_scan:
  assumes "q \<noteq> []"
  shows "getClosenessRanking t q =
     (case spec_matched_indexes t q 0 of
        None \<Rightarrow> NoMatch
      | Some js \<Rightarrow> Matches (index_distance js) (int (length q))
                     (closeness_of (int (length q)) (length q) (index_distance js)))"
proof -
  from assms obtain c cs where q: "q = c # cs" by (cases q) auto
  show ?thesis
  proof (cases "find (\<lambda>k. t ! k = c) [0..<length t]")
    case None
    then show ?thesis
      by (simp add: q getClosenessRanking_def charAt_def findMatchingCharacter_find)
  next
    case (Some k)
    have first: "findMatchingCharacter (charAt (c # cs) 0) t 0 0 = (int k + 1, Suc 0)"
      using Some by (simp add: charAt_def findMatchingCharacter_find)
    have rest: "matchRest t (c # cs) (Suc 0) (int k + 1) (Suc 0) =
        (case spec_matched_indexes t cs (Suc k) of
           None \<Rightarrow> None
         | Some js \<Rightarrow> Some (if js = [] then int k + 1 else int (last js) + 1, Suc 0 + length js))"
      using matchRest_spec [of "Suc 0" "c # cs" "int k + 1" t "Suc 0"] by (simp add: nat_add_distrib)
    show ?thesis
    proof (cases "spec_matched_indexes t cs (Suc k)")
      case None
      with Some show ?thesis
        by (simp add: getClosenessRanking_def q first rest)
    next
      case js: (Some js)
      have len: "length js = length cs"
        using js by (rule spec_matched_indexes_length)
      have pos: "(0::rat) < of_nat (Suc (length cs))"
        by (simp del: of_nat_Suc)
      show ?thesis
        using Some js len
        by (simp add: getClosenessRanking_def q first rest index_distance_def closeness_of_def Let_def
            closeness_formula [OF pos] del: num_div.simps num_mul.simps of_nat_Suc)
    qed
  qed
qed

text \<open>
  The indexes of the scan increase, so a query of two or more characters has a spread of
  at least 1 and a finite, positive closeness.
\<close>

lemma spec_matched_indexes_increasing:
  "spec_matched_indexes t q p = Some js \<Longrightarrow> (\<forall>j \<in> set js. p \<le> j) \<and> sorted_wrt (<) js"
proof (induction q arbitrary: p js)
  case Nil
  then show ?case by simp
next
  case (Cons c cs)
  from Cons.prems obtain j js' where
    j: "find (\<lambda>k. t ! k = c) [p..<length t] = Some j"
    and js': "spec_matched_indexes t cs (Suc j) = Some js'"
    and js: "js = j # js'"
    by (auto split: option.splits)
  from j have "p \<le> j" using find_upt_bounds by blast
  moreover from Cons.IH [OF js'] have "(\<forall>k \<in> set js'. Suc j \<le> k)" "sorted_wrt (<) js'"
    by simp_all
  ultimately show ?case
    by (auto simp: js)
qed

lemma getClosenessRanking_finite:
  assumes "2 \<le> length q" and "getClosenessRanking t q = Matches i l c"
  shows "is_finite c \<and> num_gt c (Num 0)"
proof -
  from assms(1) have ne: "q \<noteq> []" by auto
  from assms(2) getClosenessRanking_scan [OF ne, of t] obtain js where
    js: "spec_matched_indexes t q 0 = Some js"
    and c: "c = closeness_of (int (length q)) (length q) (index_distance js)"
    by (auto split: option.splits)
  have len: "length js = length q"
    using js by (rule spec_matched_indexes_length)
  with assms(1) obtain a b rest where abr: "js = a # b # rest"
    by (cases js; cases "tl js") auto
  from spec_matched_indexes_increasing [OF js] have "sorted_wrt (<) js" by simp
  then have "a < last js"
    by (auto simp: abr)
  then have d: "0 < index_distance js"
    by (simp add: index_distance_def abr)
  have n: "(0::rat) < of_nat (length q)"
    using ne by simp
  from d n show ?thesis
    by (simp add: c closeness_of_def num_gt_def)
qed

text \<open>
  Claim C4, as the code has it. For a non-empty query the fuzzy matcher succeeds exactly
  when the scan finds every query character; the result then has \<open>length\<close> (the
  matched character count) equal to the query length, \<open>index\<close> (the spread) equal to
  the index of the last matched character minus the index of the first, and closeness
  \<open>matchedCharCount / queryLength / spread\<close> (Infinity when the spread is 0). The
  spread is one less than the specification's ``index of the last matched character + 1
  minus index of the first''.
\<close>

theorem getClosenessRanking_matches:
  assumes "stringToRank \<noteq> []"
  shows "getClosenessRanking testString stringToRank =
     (case spec_matched_indexes testString stringToRank 0 of
        None \<Rightarrow> NoMatch
      | Some js \<Rightarrow>
          Matches (index_distance js) (int (length stringToRank))
            (closeness_of (int (length stringToRank)) (length stringToRank) (index_distance js)))"
  using assms by (rule getClosenessRanking_scan)

theorem getClosenessRanking_matches_witness:
  "utf16 ''ac'' \<noteq> [] \<and>
   getClosenessRanking (utf16 ''abc'') (utf16 ''ac'') = Matches 2 2 (Num (1 / 2))"
proof -
  have h: "utf16 ''ac'' \<noteq> []"
    by (simp add: utf16_def)
  have sp: "spec_matched_indexes (utf16 ''abc'') (utf16 ''ac'') 0 = Some [0, 2]"
    by code_simp
  have len: "length (utf16 ''ac'') = 2"
    by (simp add: utf16_def)
  from getClosenessRanking_matches [OF h, of "utf16 ''abc''"] h show ?thesis
    by (simp add: sp len index_distance_def closeness_of_def)
qed

text \<open>
  Claim C4 as stated fails: in \<open>abc\<close> the query \<open>ac\<close> matches at the indexes 0 and 2;
  the specification's spread is 3 and its closeness 1/3, the code returns the spread 2 and
  the closeness 1/2.
\<close>

theorem getClosenessRanking_spread_counterexample:
  "spec_matched_indexes (utf16 ''abc'') (utf16 ''ac'') 0 = Some [0, 2] \<and>
   spec_spread [0, 2] = 3 \<and>
   closeness_of 2 2 (spec_spread [0, 2]) = Num (1 / 3) \<and>
   getClosenessRanking (utf16 ''abc'') (utf16 ''ac'') = Matches 2 2 (Num (1 / 2)) \<and>
   getClosenessRanking (utf16 ''abc'') (utf16 ''ac'')
     \<noteq> Matches (spec_spread [0, 2]) 2 (closeness_of 2 2 (spec_spread [0, 2]))"
proof -
  have sp: "spec_matched_indexes (utf16 ''abc'') (utf16 ''ac'') 0 = Some [0, 2]"
    by code_simp
  have g: "getClosenessRanking (utf16 ''abc'') (utf16 ''ac'') = Matches 2 2 (Num (1 / 2))"
    by code_simp
  show ?thesis
    by (simp add: sp g spec_spread_def closeness_of_def)
qed

section \<open>Comparator and aggregation\<close>

lemma rank_Num: "\<exists>k. rank m = Num k"
  by (cases m) (simp_all add: rankings_defs)

lemma num_sub_Num_self: "num_sub (Num x) (Num x) = Num 0"
  by simp





lemma clampRank_ge:
  assumes "\<not> num_lt MATCHES (attr_minRanking attrs)"
      and "num_ge (clampRank (Num r) attrs) thr"
  shows "num_ge (Num r) thr"
  using assms
  by (cases "attr_minRanking attrs"; cases "attr_maxRanking attrs"; cases thr)
     (auto simp: clampRank_def num_ge_def num_gt_def num_min_def MATCHES_def Let_def
           split: if_splits)

text \<open>The clamping never raises a NO_MATCH.\<close>

lemma clampRank_NO_MATCH: "\<not> num_gt (clampRank NO_MATCH attrs) NO_MATCH"
  by (cases "attr_minRanking attrs"; cases "attr_maxRanking attrs")
     (auto simp: clampRank_def num_ge_def num_gt_def num_min_def rankings_defs Let_def)

lemma rankItem_loop_consistent:
  assumes "rankItem_loop val options thr rvs i best = Inr r"
      and "consistent thr best"
      and "\<forall>rv \<in> set rvs. \<not> num_lt MATCHES (attr_minRanking (attributes rv))"
  shows "consistent thr r"
  using assms
proof (induction rvs arbitrary: i best)
  case Nil
  then show ?case by simp
next
  case (Cons rv rvs)
  from Cons.prems(1) obtain mr where
    mr: "getMatchRanking (itemValue rv) val options = Inr mr"
    by (cases "getMatchRanking (itemValue rv) val options") auto
  define thr' where "thr' = (case attr_threshold (attributes rv) of None \<Rightarrow> thr | Some t \<Rightarrow> t)"
  define best' where "best' =
     (if replaces_best (clampRank (rank mr) (attributes rv)) thr' mr (matchRanking best)
      then \<lparr>rankedValue = Text (itemValue rv), matchRanking = mr,
            accessorIndex = int i, accessorThreshold = thr', passed = True\<rparr>
      else best)"
  have step: "rankItem_loop val options thr rvs (Suc i) best' = Inr r"
    using Cons.prems(1) by (auto simp: mr Let_def best'_def thr'_def split: if_splits)
  have "consistent thr best'"
  proof (cases "replaces_best (clampRank (rank mr) (attributes rv)) thr' mr (matchRanking best)")
    case True
    obtain k where k: "rank mr = Num k" using rank_Num by blast
    from True have "num_ge (clampRank (Num k) (attributes rv)) thr'"
      by (simp add: replaces_best_def k)
    with Cons.prems(3) have "num_ge (Num k) thr'"
      by (intro clampRank_ge [of "attributes rv"]) auto
    with True show ?thesis
      by (simp add: best'_def consistent_def k)
  next
    case False
    with Cons.prems(2) show ?thesis by (simp add: best'_def)
  qed
  with Cons.IH [OF step] Cons.prems(3) show ?case by simp
qed

lemma getAllValuesToRank_attributes:
  "rv \<in> set (getAllValuesToRank item accs) \<Longrightarrow>
   \<exists>acc \<in> set accs. attributes rv = getAccessorAttributes acc"
  by (induction accs) (auto simp: Let_def)

text \<open>
  Where \<open>passed\<close> is the comparison of the result's rank with its threshold: always
  without accessors and, with accessors, when the call-level threshold is at least
  MATCHES and no accessor has a \<open>minRanking\<close> above MATCHES.
\<close>

lemma rankItem_passed_agrees:
  assumes "rankItem item val options_arg = (Inr r, options_after)"
      and "case accessors (options_or_empty options_arg) of
             None \<Rightarrow> True
           | Some accs \<Rightarrow>
               num_ge (threshold_or_MATCHES (options_or_empty options_arg)) MATCHES \<and>
               (\<forall>acc \<in> set accs. \<not> num_lt MATCHES (attr_minRanking (getAccessorAttributes acc)))"
  shows "passed r = num_ge (rank (matchRanking r)) (accessorThreshold r)"
proof (cases "accessors (options_or_empty options_arg)")
  case None
  with assms(1) show ?thesis
    by (auto simp: rankItem_def Let_def split: item.splits sum.splits elim!: and_then.elims)
next
  case (Some accs)
  define thr where "thr = threshold_or_MATCHES (options_or_empty options_arg)"
  define options where "options = (options_or_empty options_arg)\<lparr>threshold := Some thr\<rparr>"
  define init where "init = \<lparr>rankedValue = item, matchRanking = NoMatch, accessorIndex = - 1,
                    accessorThreshold = thr, passed = False\<rparr>"
  have loop: "rankItem_loop val options thr (getAllValuesToRank item accs) 0 init = Inr r"
    using assms(1) Some by (simp add: rankItem_def Let_def thr_def options_def init_def)
  have ge: "num_ge thr MATCHES"
    and mins: "\<forall>acc \<in> set accs. \<not> num_lt MATCHES (attr_minRanking (getAccessorAttributes acc))"
    using assms(2) Some by (simp_all add: thr_def)
  have "consistent thr init" by (simp add: consistent_def init_def)
  moreover have "\<forall>rv \<in> set (getAllValuesToRank item accs).
      \<not> num_lt MATCHES (attr_minRanking (attributes rv))"
    using mins getAllValuesToRank_attributes by metis
  ultimately have c: "consistent thr r"
    using rankItem_loop_consistent [OF loop] by blast
  show ?thesis
  proof (cases "passed r")
    case True
    with c show ?thesis by (simp add: consistent_def)
  next
    case False
    with c have "matchRanking r = NoMatch" "accessorThreshold r = thr"
      by (simp_all add: consistent_def)
    with False ge show ?thesis
      by (cases thr) (auto simp: num_ge_def rankings_defs)
  qed
qed

section \<open>The scorer on concrete inputs and on the empty query\<close>

lemma acronym_pattern_Nil: "acronym_pattern [] = Inr []"
  by (simp add: acronym_pattern_def)

lemma acronym_pattern_Cons:
  "acronym_pattern (c # cs) =
     and_then (searchRegex [c]) (\<lambda>g.
     and_then (acronym_pattern cs) (\<lambda>rest.
     Inr (acronym_piece g @ rest)))"
proof (cases "searchRegex [c]")
  case (Inl e)
  then show ?thesis by (simp add: acronym_pattern_def)
next
  case (Inr g)
  then show ?thesis
    by (cases "map_result
          (\<lambda>character. and_then (searchRegex [character]) (\<lambda>g. Inr (acronym_piece g)))
          cs")
       (simp_all add: acronym_pattern_def)
qed

lemma searchRegex_q: "searchRegex [U CHR ''q''] = Inr similar_q"
  by code_simp

lemma searchRegex_qq: "searchRegex (utf16 ''qq'') = Inr (similar_q @ similar_q)"
  by code_simp

lemma searchRegex_dollar: "searchRegex (utf16 ''$'') = Inr (utf16 ''$'')"
  by code_simp

lemma searchRegex_paren: "searchRegex (utf16 ''('') = Inr (utf16 ''('')"
  by code_simp

lemma searchRegex_empty: "searchRegex [] = Inr []"
  by code_simp

lemma getMatchRanking_q_q:
  assumes "keepDiacritics options = None"
  shows "getMatchRanking (utf16 ''q'') (utf16 ''q'') options = Inr CaseSensitiveEqual"
proof -
  have s: "searchRegex (utf16 ''q'') = Inr similar_q"
    by (simp only: utf16_def list.map searchRegex_q)
  have 1: "RegExp_test (utf16 ''^'' @ similar_q @ utf16 ''$'') '''' (utf16 ''q'') = Inr True"
    by code_simp
  show ?thesis
    unfolding getMatchRanking_def
    by (simp only: assms s 1 and_then.simps if_True if_False option.simps)
qed

lemma getMatchRanking_b_q:
  assumes "keepDiacritics options = None"
  shows "getMatchRanking (utf16 ''b'') (utf16 ''q'') options = Inr NoMatch"
proof -
  define ap where
    "ap = acronym_piece similar_q @ []"
  have s: "searchRegex (utf16 ''q'') = Inr similar_q"
    by (simp only: utf16_def list.map searchRegex_q)
  have p: "acronym_pattern (utf16 ''q'') = Inr ap"
    unfolding ap_def
    by (simp only: utf16_def list.map acronym_pattern_Cons acronym_pattern_Nil searchRegex_q
        and_then.simps)
  have 1: "RegExp_test (utf16 ''^'' @ similar_q @ utf16 ''$'') '''' (utf16 ''b'') = Inr False"
    by code_simp
  have 2: "RegExp_test (utf16 ''^'' @ similar_q @ utf16 ''$'') ''i'' (utf16 ''b'') = Inr False"
    by code_simp
  have 3: "RegExp_exec (utf16 ''^'' @ similar_q) ''i'' (utf16 ''b'') = Inr None"
    by code_simp
  have 4: "RegExp_exec ([U (CHR 0x5C)] @ utf16 ''s'' @ similar_q) ''i'' (utf16 ''b'') = Inr None"
    by code_simp
  have 5: "RegExp_exec similar_q ''i'' (utf16 ''b'') = Inr None"
    by code_simp
  have 6: "RegExp_exec ap '''' (utf16 ''b'') = Inr None"
    unfolding ap_def by code_simp
  have 7: "getClosenessRanking (utf16 ''b'') (utf16 ''q'') = NoMatch"
    by code_simp
  show ?thesis
    unfolding getMatchRanking_def
    by (simp only: assms s p 1 2 3 4 5 6 7 and_then.simps if_False option.simps)
qed

lemma getMatchRanking_qbq_qq:
  assumes "keepDiacritics options = None"
  shows "getMatchRanking (utf16 ''qbq'') (utf16 ''qq'') options = Inr (Matches 2 2 (Num (1 / 2)))"
proof -
  define ss where "ss = similar_q @ similar_q"
  define ap where
    "ap = acronym_piece similar_q
        @ acronym_piece similar_q @ []"
  have s: "searchRegex (utf16 ''qq'') = Inr ss"
    unfolding ss_def by (rule searchRegex_qq)
  have p: "acronym_pattern (utf16 ''qq'') = Inr ap"
    unfolding ap_def
    by (simp only: utf16_def list.map acronym_pattern_Cons acronym_pattern_Nil searchRegex_q
        and_then.simps)
  have 1: "RegExp_test (utf16 ''^'' @ ss @ utf16 ''$'') '''' (utf16 ''qbq'') = Inr False"
    unfolding ss_def by code_simp
  have 2: "RegExp_test (utf16 ''^'' @ ss @ utf16 ''$'') ''i'' (utf16 ''qbq'') = Inr False"
    unfolding ss_def by code_simp
  have 3: "RegExp_exec (utf16 ''^'' @ ss) ''i'' (utf16 ''qbq'') = Inr None"
    unfolding ss_def by code_simp
  have 4: "RegExp_exec ([U (CHR 0x5C)] @ utf16 ''s'' @ ss) ''i'' (utf16 ''qbq'') = Inr None"
    unfolding ss_def by code_simp
  have 5: "RegExp_exec ss ''i'' (utf16 ''qbq'') = Inr None"
    unfolding ss_def by code_simp
  have 6: "RegExp_exec ap '''' (utf16 ''qbq'') = Inr None"
    unfolding ap_def by code_simp
  have 7: "getClosenessRanking (utf16 ''qbq'') (utf16 ''qq'') = Matches 2 2 (Num (1 / 2))"
    by code_simp
  show ?thesis
    unfolding getMatchRanking_def
    by (simp only: assms s p 1 2 3 4 5 6 7 and_then.simps if_False option.simps)
qed

lemma getMatchRanking_dollar:
  assumes "keepDiacritics options = None"
  shows "getMatchRanking (utf16 ''$'') (utf16 ''$'') options = Inr (Contains 1 0)"
proof -
  have 1: "RegExp_test (utf16 ''^'' @ utf16 ''$'' @ utf16 ''$'') '''' (utf16 ''$'') = Inr False"
    by code_simp
  have 2: "RegExp_test (utf16 ''^'' @ utf16 ''$'' @ utf16 ''$'') ''i'' (utf16 ''$'') = Inr False"
    by code_simp
  have 3: "RegExp_exec (utf16 ''^'' @ utf16 ''$'') ''i'' (utf16 ''$'') = Inr None"
    by code_simp
  have 4: "RegExp_exec ([U (CHR 0x5C)] @ utf16 ''s'' @ utf16 ''$'') ''i'' (utf16 ''$'') = Inr None"
    by code_simp
  have 5: "RegExp_exec (utf16 ''$'') ''i'' (utf16 ''$'')
             = Inr (Some \<lparr>index = 1, matched = [], captures = []\<rparr>)"
    by code_simp
  show ?thesis
    unfolding getMatchRanking_def
    apply (simp only: assms searchRegex_dollar 1 2 3 4 5 and_then.simps if_False option.simps)
    apply simp
    done
qed

lemma getMatchRanking_paren:
  assumes "keepDiacritics options = None"
  shows "getMatchRanking (utf16 ''('') (utf16 ''('') options = Inl SyntaxError"
proof -
  have 1: "RegExp_test (utf16 ''^'' @ utf16 ''('' @ utf16 ''$'') '''' (utf16 ''('') = Inl SyntaxError"
    by code_simp
  show ?thesis
    unfolding getMatchRanking_def
    by (simp only: assms searchRegex_paren 1 and_then.simps if_False option.simps)
qed

lemma searchRegex_f: "searchRegex [U CHR ''f''] = Inr similar_f"
  by code_simp

lemma searchRegex_ff: "searchRegex (utf16 ''ff'') = Inr (similar_f @ similar_f)"
  by code_simp

lemma getMatchRanking_Fred_ff:
  assumes "keepDiacritics options = None"
  shows "getMatchRanking (utf16 ''Fred Flintstone'') (utf16 ''ff'') options = Inr NoMatch"
proof -
  define ss where "ss = similar_f @ similar_f"
  define ap where "ap = acronym_piece similar_f @ acronym_piece similar_f @ []"
  have s: "searchRegex (utf16 ''ff'') = Inr ss"
    unfolding ss_def by (rule searchRegex_ff)
  have p: "acronym_pattern (utf16 ''ff'') = Inr ap"
    unfolding ap_def
    by (simp only: utf16_def list.map acronym_pattern_Cons acronym_pattern_Nil searchRegex_f
        and_then.simps)
  have 1: "RegExp_test (utf16 ''^'' @ ss @ utf16 ''$'') '''' (utf16 ''Fred Flintstone'') = Inr False"
    unfolding ss_def by code_simp
  have 2: "RegExp_test (utf16 ''^'' @ ss @ utf16 ''$'') ''i'' (utf16 ''Fred Flintstone'') = Inr False"
    unfolding ss_def by code_simp
  have 3: "RegExp_exec (utf16 ''^'' @ ss) ''i'' (utf16 ''Fred Flintstone'') = Inr None"
    unfolding ss_def by code_simp
  have 4: "RegExp_exec ([U (CHR 0x5C)] @ utf16 ''s'' @ ss) ''i'' (utf16 ''Fred Flintstone'') = Inr None"
    unfolding ss_def by code_simp
  have 5: "RegExp_exec ss ''i'' (utf16 ''Fred Flintstone'') = Inr None"
    unfolding ss_def by code_simp
  have 6: "RegExp_exec ap '''' (utf16 ''Fred Flintstone'') = Inr None"
    unfolding ap_def by code_simp
  have 7: "getClosenessRanking (utf16 ''Fred Flintstone'') (utf16 ''ff'') = NoMatch"
    by code_simp
  show ?thesis
    unfolding getMatchRanking_def
    by (simp only: assms s p 1 2 3 4 5 6 7 and_then.simps if_False option.simps)
qed

lemma getMatchRanking_fred_ff:
  assumes "keepDiacritics options = None"
  shows "getMatchRanking (utf16 ''fred flintstone'') (utf16 ''ff'') options = Inr (Acronym [0, 5])"
proof -
  define ss where "ss = similar_f @ similar_f"
  define ap where "ap = acronym_piece similar_f @ acronym_piece similar_f @ []"
  have s: "searchRegex (utf16 ''ff'') = Inr ss"
    unfolding ss_def by (rule searchRegex_ff)
  have p: "acronym_pattern (utf16 ''ff'') = Inr ap"
    unfolding ap_def
    by (simp only: utf16_def list.map acronym_pattern_Cons acronym_pattern_Nil searchRegex_f
        and_then.simps)
  have 1: "RegExp_test (utf16 ''^'' @ ss @ utf16 ''$'') '''' (utf16 ''fred flintstone'') = Inr False"
    unfolding ss_def by code_simp
  have 2: "RegExp_test (utf16 ''^'' @ ss @ utf16 ''$'') ''i'' (utf16 ''fred flintstone'') = Inr False"
    unfolding ss_def by code_simp
  have 3: "RegExp_exec (utf16 ''^'' @ ss) ''i'' (utf16 ''fred flintstone'') = Inr None"
    unfolding ss_def by code_simp
  have 4: "RegExp_exec ([U (CHR 0x5C)] @ utf16 ''s'' @ ss) ''i'' (utf16 ''fred flintstone'') = Inr None"
    unfolding ss_def by code_simp
  have 5: "RegExp_exec ss ''i'' (utf16 ''fred flintstone'') = Inr None"
    unfolding ss_def by code_simp
  have 6: "RegExp_exec ap '''' (utf16 ''fred flintstone'')
             = Inr (Some \<lparr>index = 0, matched = utf16 ''fred flintstone'',
                           captures = [Some [], Some (utf16 ''f''), Some (utf16 ''red''),
                                       Some (utf16 '' ''), Some (utf16 ''f''),
                                       Some (utf16 ''lintstone'')]\<rparr>)"
    unfolding ap_def by code_simp
  have 7: "acronym_indexes [Some [], Some (utf16 ''f''), Some (utf16 ''red''),
                            Some (utf16 '' ''), Some (utf16 ''f''), Some (utf16 ''lintstone'')] 0 (int 0)
             = Inr [0, 5]"
    by code_simp
  show ?thesis
    unfolding getMatchRanking_def
    apply (simp only: assms s p 1 2 3 4 5 6 and_then.simps if_False option.simps)
    apply (simp only: regexp_match.simps 7 and_then.simps)
    done
qed

lemma scan_none:
  "(\<And>j. i \<le> j \<Longrightarrow>
      run (ignoreCase re) s (body re) j (replicate (Suc (ncaptures re)) None) = [])
   \<Longrightarrow> scan re s i = None"
proof (induction re s i rule: scan.induct)
  case (1 re s i)
  show ?case
  proof (cases "length s < i")
    case True
    then show ?thesis by (subst scan.simps) simp
  next
    case False
    have here: "run (ignoreCase re) s (body re) i (replicate (Suc (ncaptures re)) None) = []"
      by (rule "1.prems") simp
    have "scan re s (Suc i) = None"
      by (rule "1.IH" [OF False here]) (rule "1.prems", simp)
    with False here show ?thesis by (subst scan.simps) simp
  qed
qed

lemma RegExp_anchored_empty:
  "RegExp (utf16 ''^'' @ [] @ utf16 ''$'') '''' =
     Inr \<lparr>body = Seq Bol Eol, ncaptures = 0, ignoreCase = False, global = False\<rparr>"
  "RegExp (utf16 ''^'' @ [] @ utf16 ''$'') ''i'' =
     Inr \<lparr>body = Seq Bol Eol, ncaptures = 0, ignoreCase = True, global = False\<rparr>"
  "RegExp (utf16 ''^'' @ []) ''i'' =
     Inr \<lparr>body = Bol, ncaptures = 0, ignoreCase = True, global = False\<rparr>"
  by code_simp+

lemma exec_empty_pattern_anchored:
  "exec \<lparr>body = Seq Bol Eol, ncaptures = 0, ignoreCase = ic, global = False\<rparr> s =
     Inr (if s = [] then Some \<lparr>index = 0, matched = [], captures = []\<rparr> else None)"
proof (cases "s = []")
  case True
  then show ?thesis
    by (simp add: exec_def unmodelled_comparison_def scan.simps [of _ "[]" 0] substring_def)
next
  case False
  have "scan \<lparr>body = Seq Bol Eol, ncaptures = 0, ignoreCase = ic, global = False\<rparr> s (Suc 0) = None"
    by (rule scan_none) simp
  with False show ?thesis
    by (simp add: exec_def unmodelled_comparison_def scan.simps [of _ s 0])
qed

lemma exec_empty_pattern_prefix:
  "exec \<lparr>body = Bol, ncaptures = 0, ignoreCase = ic, global = False\<rparr> s =
     Inr (Some \<lparr>index = 0, matched = [], captures = []\<rparr>)"
  by (simp add: exec_def unmodelled_comparison_def scan.simps [of _ s 0] substring_def)

lemma test_empty_query:
  "RegExp_test (utf16 ''^'' @ [] @ utf16 ''$'') '''' s = Inr (s = [])"
  "RegExp_test (utf16 ''^'' @ [] @ utf16 ''$'') ''i'' s = Inr (s = [])"
  by (simp_all only: RegExp_test_def RegExp_anchored_empty and_then.simps test_def
        exec_empty_pattern_anchored)
     simp_all

lemma exec_empty_query:
  "RegExp_exec (utf16 ''^'' @ []) ''i'' s = Inr (Some \<lparr>index = 0, matched = [], captures = []\<rparr>)"
  by (simp only: RegExp_exec_def RegExp_anchored_empty and_then.simps exec_empty_pattern_prefix)

lemma getMatchRanking_empty_query:
  "getMatchRanking testString [] options =
     Inr (if testString = [] then CaseSensitiveEqual else StartsWith 0)"
proof -
  have s: "(if keepDiacritics options = Some True then Inr [] else searchRegex []) = Inr []"
    by (simp add: searchRegex_empty)
  show ?thesis
    unfolding getMatchRanking_def
    apply (simp only: s and_then.simps test_empty_query exec_empty_query)
    apply simp
    done
qed

section \<open>The claims about the scorer\<close>

text \<open>
  Claim C3 at failing inputs. The query is the body of the pattern, unescaped: scoring
  \<open>$\<close> against itself, the two equality patterns \<open>^$$\<close> do not match the
  one-character string, and the result is CONTAINS at index 1 with length 0, not
  CASE_SENSITIVE_EQUAL; scoring \<open>(\<close> against itself raises a syntax error.
\<close>

theorem score_self_special_characters:
  "getMatchRanking (utf16 ''$'') (utf16 ''$'') (defaults :: unit RankItemOptions)
     = Inr (Contains 1 0) \<and>
   getMatchRanking (utf16 ''('') (utf16 ''('') (defaults :: unit RankItemOptions)
     = Inl SyntaxError"
  by (simp add: getMatchRanking_dollar getMatchRanking_paren defaults_def)

text \<open>
  Claim C5 at the failing input. The acronym pattern is built without the \<open>i\<close> flag
  that the four steps before it pass, and the fuzzy matcher compares code units, so
  \<open>ff\<close> scores NO_MATCH against \<open>Fred Flintstone\<close>; against
  \<open>fred flintstone\<close> it is the acronym at the indexes 0 and 5.
\<close>

theorem score_acronym_case_sensitive:
  "getMatchRanking (utf16 ''Fred Flintstone'') (utf16 ''ff'') (defaults :: unit RankItemOptions)
     = Inr NoMatch \<and>
   getMatchRanking (utf16 ''fred flintstone'') (utf16 ''ff'') (defaults :: unit RankItemOptions)
     = Inr (Acronym [0, 5])"
  by (simp add: getMatchRanking_Fred_ff getMatchRanking_fred_ff defaults_def)

text \<open>
  Claim C9. Whatever the options, the empty query scores STARTS_WITH with length 0
  against every non-empty string and CASE_SENSITIVE_EQUAL against the empty string: the
  scorer returns at its first or third step and never reaches the fuzzy matcher.
\<close>

theorem score_empty_query:
  "getMatchRanking testString [] options =
     Inr (if testString = [] then CaseSensitiveEqual else StartsWith 0)"
  by (rule getMatchRanking_empty_query)

theorem score_empty_query_witness:
  "utf16 ''hello'' \<noteq> [] \<and>
   getMatchRanking (utf16 ''hello'') [] (defaults :: unit RankItemOptions) = Inr (StartsWith 0)"
proof -
  have h: "utf16 ''hello'' \<noteq> []"
    by (simp add: utf16_def)
  from score_empty_query [of "utf16 ''hello''" "defaults :: unit RankItemOptions"] h
  show ?thesis by simp
qed

section \<open>The claims about rankItem\<close>

text \<open>
  Claim C1 at the failing input. The accessor has \<open>maxRanking\<close> CONTAINS and the
  candidate equals the query. The clamped rank 3 passes the threshold and beats the
  running best, and then the unclamped result of the scorer is stored and returned: the
  rank of the result is CASE_SENSITIVE_EQUAL, above CONTAINS.
\<close>

theorem rankItem_maxRanking_not_applied:
  "fst (rankItem (Object (utf16 ''q'')) (utf16 ''q'')
          (Some \<lparr>accessors = Some [Opts \<lparr>accessor = name, accessor_threshold = None,
                                          maxRanking = Some CONTAINS, minRanking = None\<rparr>],
                 threshold = None, keepDiacritics = None\<rparr>))
     = Inr \<lparr>rankedValue = Text (utf16 ''q''), matchRanking = CaseSensitiveEqual,
            accessorIndex = 0, accessorThreshold = MATCHES, passed = True\<rparr> \<and>
   num_gt (rank CaseSensitiveEqual) CONTAINS"
  by (simp add: rankItem_def Let_def options_or_empty_def threshold_or_MATCHES_def
      getItemValues_def name_def getMatchRanking_q_q clampRank_def replaces_best_def
      defaultKeyAttributes_def rankings_defs num_ge_def num_gt_def num_min_def)

text \<open>
  Claim C2 at the failing input. The accessor has \<open>minRanking\<close> CONTAINS, the call
  has the threshold CONTAINS, and \<open>qq\<close> is a fuzzy match in \<open>qbq\<close>. The rank
  raised to CONTAINS passes the threshold, and the result that is returned still has the
  rank MATCHES of the scorer.
\<close>

theorem rankItem_minRanking_not_reported:
  "fst (rankItem (Object (utf16 ''qbq'')) (utf16 ''qq'')
          (Some \<lparr>accessors = Some [Opts \<lparr>accessor = name, accessor_threshold = None,
                                          maxRanking = None, minRanking = Some CONTAINS\<rparr>],
                 threshold = Some CONTAINS, keepDiacritics = None\<rparr>))
     = Inr \<lparr>rankedValue = Text (utf16 ''qbq''), matchRanking = Matches 2 2 (Num (1 / 2)),
            accessorIndex = 0, accessorThreshold = CONTAINS, passed = True\<rparr> \<and>
   rank (Matches 2 2 (Num (1 / 2))) = MATCHES"
  by (simp add: rankItem_def Let_def options_or_empty_def threshold_or_MATCHES_def
      getItemValues_def name_def getMatchRanking_qbq_qq clampRank_def replaces_best_def
      defaultKeyAttributes_def rankings_defs num_ge_def num_gt_def num_min_def)

text \<open>
  Claim C6 at the failing input. The call has the threshold NO_MATCH and the candidate
  \<open>b\<close> does not match the query \<open>q\<close>. With an accessor the result has rank
  NO_MATCH and accessorThreshold NO_MATCH, so rank >= accessorThreshold holds, and
  \<open>passed\<close> is false, because the candidate did not replace the initial best; without
  accessors the same candidate gives the same rank and threshold with \<open>passed\<close> true.
\<close>

theorem rankItem_passed_paths_disagree:
  "fst (rankItem (Object (utf16 ''b'')) (utf16 ''q'')
          (Some \<lparr>accessors = Some [Fn name], threshold = Some NO_MATCH,
                 keepDiacritics = None\<rparr>))
     = Inr \<lparr>rankedValue = Object (utf16 ''b''), matchRanking = NoMatch,
            accessorIndex = - 1, accessorThreshold = NO_MATCH, passed = False\<rparr> \<and>
   num_ge (rank NoMatch) NO_MATCH \<and>
   fst (rankItem (Text (utf16 ''b'') :: jsstring item) (utf16 ''q'')
          (Some \<lparr>accessors = None, threshold = Some NO_MATCH, keepDiacritics = None\<rparr>))
     = Inr \<lparr>rankedValue = Text (utf16 ''b''), matchRanking = NoMatch,
            accessorIndex = - 1, accessorThreshold = NO_MATCH, passed = True\<rparr>"
  by (simp add: rankItem_def Let_def options_or_empty_def threshold_or_MATCHES_def
      getItemValues_def name_def getMatchRanking_b_q clampRank_def replaces_best_def
      defaultKeyAttributes_def rankings_defs num_ge_def num_gt_def num_min_def)

text \<open>
  The options record that \<open>rankItem\<close> returns next to its result is the one it was
  passed with the threshold defaulted.
\<close>

lemma rankItem_options_after:
  "snd (rankItem item val options_arg) =
     map_option (\<lambda>opts. opts\<lparr>threshold := Some (threshold_or_MATCHES opts)\<rparr>) options_arg"
  by (cases options_arg) (simp_all add: rankItem_def Let_def options_or_empty_def)





section \<open>The claim about effects: rankItem over the store\<close>

lemma rankItem_store_loop_value:
  assumes "read_options s ro = Inr options" and "threshold options = Some thr"
  shows "rankItem_store_loop s ro val rvs i best = (rankItem_loop val options thr rvs i best, s)"
  using assms
proof (induction rvs arbitrary: i best)
  case Nil
  then show ?case by simp
next
  case (Cons rv rvs)
  show ?case
  proof (cases "getMatchRanking (itemValue rv) val options")
    case (Inl e)
    with Cons.prems show ?thesis by simp
  next
    case (Inr mr)
    have nt: "number_of (threshold options) = thr"
      using Cons.prems(2) by (simp add: number_of_def)
    have te: "(case attr_threshold (attributes rv) of
                 None \<Rightarrow> number_of (threshold options) | Some t \<Rightarrow> t)
              = (case attr_threshold (attributes rv) of None \<Rightarrow> thr | Some t \<Rightarrow> t)"
      by (cases "attr_threshold (attributes rv)") (simp_all add: nt)
    show ?thesis
      using Cons.prems(1) Inr Cons.IH [OF Cons.prems]
      by (simp add: Let_def te)
  qed
qed

lemma rankItem_store_loop_store:
  "snd (rankItem_store_loop s ro val rvs i best) = s"
proof (induction rvs arbitrary: i best)
  case Nil
  then show ?case by simp
next
  case (Cons rv rvs)
  then show ?case
    by (auto simp: Let_def split: sum.splits)
qed

lemma rankItem_store_body_store: "snd (rankItem_store_body s item_ref val ro) = s"
  by (simp add: rankItem_store_body_def rankItem_store_loop_store
      split: sum.splits option.splits item.splits)

lemma rankItem_store_body_storeD:
  assumes "rankItem_store_body s item_ref val ro = (result, s')"
  shows "s' = s"
  using rankItem_store_body_store [of s item_ref val ro] assms by simp

text \<open>
  Claim C7, as the code has it. Run over a store, \<open>rankItem\<close> leaves every object of
  the caller as it was, the item and the accessor array among them, except the options
  object it was passed: of that object it writes the property \<open>threshold\<close>, which
  afterwards holds the value it had, or MATCHES when it was absent. This holds whether
  the call returns or raises.
\<close>

theorem rankItem_store_frame:
  assumes "rankItem_store s item_ref val options_ref = (result, s')"
  shows "length s \<le> length s' \<and>
         (\<forall>r < length s. options_ref \<noteq> Some r \<longrightarrow> s' ! r = s ! r) \<and>
         (\<forall>r oo. options_ref = Some r \<and> r < length s \<and> s ! r = OptionsObject oo \<longrightarrow>
            s' ! r = OptionsObject
                       (oo\<lparr>threshold_prop :=
                             Some (case threshold_prop oo of None \<Rightarrow> MATCHES | Some t \<Rightarrow> t)\<rparr>))"
proof (cases options_ref)
  case None
  define s1 where "s1 = s @ [OptionsObject \<lparr>accessors_ref = None, threshold_prop = None,
                                           keepDiacritics_prop = None\<rparr>]"
  have "s' = s1[length s := OptionsObject \<lparr>accessors_ref = None, threshold_prop = Some MATCHES,
                                           keepDiacritics_prop = None\<rparr>]"
    using assms None
    by (auto simp: rankItem_store_def s1_def read_options_object_def
        dest: rankItem_store_body_storeD)
  then show ?thesis
    using None by (simp add: s1_def nth_append)
next
  case (Some ro)
  show ?thesis
  proof (cases "read_options_object s ro")
    case (Inl e)
    with assms Some have "s' = s"
      by (simp add: rankItem_store_def)
    with Some Inl show ?thesis
      by (auto simp: read_options_object_def)
  next
    case (Inr oo)
    then have ro: "ro < length s" "s ! ro = OptionsObject oo"
      by (auto simp: read_options_object_def split: if_splits object.splits)
    have "s' = s[ro := OptionsObject
                         (oo\<lparr>threshold_prop :=
                               Some (case threshold_prop oo of None \<Rightarrow> MATCHES | Some t \<Rightarrow> t)\<rparr>)]"
      using assms Some Inr
      by (auto simp: rankItem_store_def dest: rankItem_store_body_storeD)
    with Some ro show ?thesis
      by simp
  qed
qed

text \<open>
  The two embeddings agree: on a store that holds the item and the options object, the
  run over the store returns what \<open>rankItem\<close> returns on the values read from it.
\<close>

lemma read_options_update:
  assumes "read_options s ro = Inr options"
  shows "\<exists>oo. ro < length s \<and> s ! ro = OptionsObject oo \<and>
              read_options_object s ro = Inr oo \<and>
              threshold options = threshold_prop oo \<and>
              (\<forall>t. read_options (s[ro := OptionsObject (oo\<lparr>threshold_prop := Some t\<rparr>)]) ro
                     = Inr (options\<lparr>threshold := Some t\<rparr>))"
proof -
  from assms obtain oo where oo: "ro < length s" "s ! ro = OptionsObject oo"
    by (auto simp: read_options_def split: if_splits object.splits)
  show ?thesis
  proof (cases "accessors_ref oo")
    case None
    with assms oo show ?thesis
      by (auto simp: read_options_def read_options_object_def)
  next
    case (Some ra)
    with assms oo obtain accs where accs: "read_array s ra = Inr accs"
      by (cases "read_array s ra") (auto simp: read_options_def)
    with oo have "ra \<noteq> ro"
      by (auto simp: read_array_def split: if_splits)
    then have "read_array (s[ro := x]) ra = read_array s ra" for x
      by (auto simp: read_array_def)
    with assms oo Some accs show ?thesis
      by (auto simp: read_options_def read_options_object_def)
  qed
qed

lemma read_item_update:
  assumes "read_item s item_ref = Inr item" and "s ! ro = OptionsObject oo"
  shows "read_item (s[ro := OptionsObject oo']) item_ref = Inr item"
proof -
  from assms have "item_ref \<noteq> ro"
    by (auto simp: read_item_def split: if_splits)
  with assms(1) show ?thesis
    by (auto simp: read_item_def split: if_splits)
qed

lemma rankItem_store_value:
  assumes "read_item s item_ref = Inr item" and "read_options s ro = Inr options"
  shows "fst (rankItem_store s item_ref val (Some ro)) = fst (rankItem item val (Some options))"
proof -
  define thr where "thr = threshold_or_MATCHES options"
  from read_options_update [OF assms(2)] obtain oo where
    oo: "ro < length s" "s ! ro = OptionsObject oo" "read_options_object s ro = Inr oo"
        "threshold options = threshold_prop oo"
    and upd: "\<And>t. read_options (s[ro := OptionsObject (oo\<lparr>threshold_prop := Some t\<rparr>)]) ro
                     = Inr (options\<lparr>threshold := Some t\<rparr>)"
    by blast
  define s2 where "s2 = s[ro := OptionsObject (oo\<lparr>threshold_prop := Some thr\<rparr>)]"
  have t: "(case threshold_prop oo of None \<Rightarrow> MATCHES | Some t \<Rightarrow> t) = thr"
    by (simp add: thr_def threshold_or_MATCHES_def oo(4))
  have ro2: "read_options s2 ro = Inr (options\<lparr>threshold := Some thr\<rparr>)"
    unfolding s2_def by (rule upd)
  have it2: "read_item s2 item_ref = Inr item"
    unfolding s2_def using assms(1) oo(2) by (rule read_item_update)
  have loop: "rankItem_store_loop s2 ro val rvs 0 best
                = (rankItem_loop val (options\<lparr>threshold := Some thr\<rparr>) thr rvs 0 best, s2)"
    for rvs best
    by (rule rankItem_store_loop_value [OF ro2]) simp
  have body: "fst (rankItem_store_body s2 item_ref val ro) = fst (rankItem item val (Some options))"
    by (cases "accessors options"; cases item)
       (simp_all add: rankItem_store_body_def ro2 it2 loop rankItem_def Let_def
          options_or_empty_def thr_def [symmetric] number_of_def)
  show ?thesis
    using body by (simp add: rankItem_store_def oo(3) t s2_def)
qed

theorem rankItem_store_frame_witness:
  "snd (rankItem_store caller_store 0 (utf16 ''q'') (Some 2)) ! 0 = ItemObject (Object (utf16 ''q'')) \<and>
   snd (rankItem_store caller_store 0 (utf16 ''q'') (Some 2)) ! 1 = ArrayObject [Fn name] \<and>
   snd (rankItem_store caller_store 0 (utf16 ''q'') (Some 2)) ! 2
     = OptionsObject \<lparr>accessors_ref = Some 1, threshold_prop = Some MATCHES,
                      keepDiacritics_prop = None\<rparr> \<and>
   fst (rankItem_store caller_store 0 (utf16 ''q'') (Some 2))
     = Inr \<lparr>rankedValue = Text (utf16 ''q''), matchRanking = CaseSensitiveEqual,
            accessorIndex = 0, accessorThreshold = MATCHES, passed = True\<rparr>"
proof -
  obtain result s' where run: "rankItem_store caller_store 0 (utf16 ''q'') (Some 2) = (result, s')"
    by (cases "rankItem_store caller_store 0 (utf16 ''q'') (Some 2)") auto
  have len: "length caller_store = 3"
    and c0: "caller_store ! 0 = ItemObject (Object (utf16 ''q''))"
    and c1: "caller_store ! 1 = ArrayObject [Fn name]"
    and c2: "caller_store ! 2 = OptionsObject \<lparr>accessors_ref = Some 1, threshold_prop = None,
                                                keepDiacritics_prop = None\<rparr>"
    by (simp_all add: caller_store_def)
  from rankItem_store_frame [OF run] have
    others: "\<forall>r < length caller_store. Some 2 \<noteq> Some r \<longrightarrow> s' ! r = caller_store ! r"
    and opts: "\<forall>r oo. Some (2::nat) = Some r \<and> r < length caller_store \<and>
                 caller_store ! r = OptionsObject oo \<longrightarrow>
                 s' ! r = OptionsObject
                   (oo\<lparr>threshold_prop :=
                         Some (case threshold_prop oo of None \<Rightarrow> MATCHES | Some t \<Rightarrow> t)\<rparr>)"
    by blast+
  from others len have "s' ! 0 = caller_store ! 0" "s' ! 1 = caller_store ! 1"
    by simp_all
  moreover from opts len c2 have
    "s' ! 2 = OptionsObject \<lparr>accessors_ref = Some 1, threshold_prop = Some MATCHES,
                             keepDiacritics_prop = None\<rparr>"
    by simp
  moreover have "fst (rankItem_store caller_store 0 (utf16 ''q'') (Some 2))
     = Inr \<lparr>rankedValue = Text (utf16 ''q''), matchRanking = CaseSensitiveEqual,
            accessorIndex = 0, accessorThreshold = MATCHES, passed = True\<rparr>"
  proof -
    have ri: "read_item caller_store 0 = Inr (Object (utf16 ''q''))"
      by (simp add: read_item_def caller_store_def)
    have ro: "read_options caller_store 2
                = Inr \<lparr>accessors = Some [Fn name], threshold = None, keepDiacritics = None\<rparr>"
      by (simp add: read_options_def read_array_def caller_store_def)
    show ?thesis
      unfolding rankItem_store_value [OF ri ro]
      by (simp add: rankItem_def Let_def options_or_empty_def threshold_or_MATCHES_def
          getItemValues_def name_def getMatchRanking_q_q clampRank_def replaces_best_def
          defaultKeyAttributes_def rankings_defs num_ge_def num_gt_def num_min_def)
  qed
  ultimately show ?thesis
    using run c0 c1 by simp
qed

text \<open>
  Claim C7 as stated fails: the options object of the caller has no threshold before the
  call and the threshold MATCHES after it.
\<close>

theorem rankItem_store_options_counterexample:
  "caller_store ! 2
     = OptionsObject \<lparr>accessors_ref = Some 1, threshold_prop = None, keepDiacritics_prop = None\<rparr> \<and>
   snd (rankItem_store caller_store 0 (utf16 ''q'') (Some 2)) ! 2
     = OptionsObject \<lparr>accessors_ref = Some 1, threshold_prop = Some MATCHES,
                      keepDiacritics_prop = None\<rparr> \<and>
   snd (rankItem_store caller_store 0 (utf16 ''q'') (Some 2)) \<noteq> caller_store"
proof -
  have s: "snd (rankItem_store caller_store 0 (utf16 ''q'') (Some 2))
             = caller_store[2 := OptionsObject \<lparr>accessors_ref = Some 1,
                                   threshold_prop = Some MATCHES, keepDiacritics_prop = None\<rparr>]"
    by (simp add: rankItem_store_def read_options_object_def caller_store_def
        rankItem_store_body_store)
  show ?thesis
    unfolding s by (simp add: caller_store_def)
qed

end
